theory Spec2Isabelle
  imports Complex_Main
begin

section \<open>Values, errors and tensors\<close>

text \<open>
  The development embeds the probe module \<^verbatim>\<open>utils/probing/from_scratch.py\<close> (class
  \<^verbatim>\<open>FromScratch\<close>) and the driver \<^verbatim>\<open>main_glocal_probing_efficient.py\<close> (function
  \<^verbatim>\<open>run\<close>).

  Floating-point tensors are modelled over the reals: a 1-D tensor is a list, a 2-D tensor
  is a list of rows. A tensor without rows carries no column count; it is read as having
  at least one column. Integer tensors (choices, labels) are lists of \<open>int\<close>.
  Every exception of the source is a value \<open>Inl e\<close> of a sum type.
\<close>

datatype error =
  ValueError | RuntimeError | AttributeError | IndexError | ZeroDivisionError
  | UnboundLocalError

type_synonym vec = "real list"
type_synonym mat = "real list list"

text \<open>
  Running a list of fallible computations in order, stopping at the first exception
  (a Python list comprehension, or a per-row tensor operation).
\<close>

fun sequence :: "(error + 'a) list \<Rightarrow> error + 'a list" where
  "sequence [] = Inr []"
| "sequence (r # rs) =
     (case r of
        Inl e \<Rightarrow> Inl e
      | Inr x \<Rightarrow> (case sequence rs of Inl e \<Rightarrow> Inl e | Inr xs \<Rightarrow> Inr (x # xs)))"

text \<open>
  Broadcasting of a binary elementwise operation along one dimension: equal sizes go
  elementwise, a size-1 operand is repeated, anything else is torch's \<^verbatim>\<open>RuntimeError\<close>.
\<close>

definition broadcast2 :: "('a \<Rightarrow> 'b \<Rightarrow> 'c) \<Rightarrow> 'a list \<Rightarrow> 'b list \<Rightarrow> error + 'c list" where
  "broadcast2 f xs ys =
     (if length xs = length ys then Inr (map2 f xs ys)
      else if length xs = 1 then Inr (map (f (hd xs)) ys)
      else if length ys = 1 then Inr (map (\<lambda>x. f x (hd ys)) xs)
      else Inl RuntimeError)"

text \<open>\<^verbatim>\<open>a * b\<close> on 2-D tensors, and \<^verbatim>\<open>torch.sum(t, dim=1)\<close>.\<close>

definition mul :: "mat \<Rightarrow> mat \<Rightarrow> error + mat" where
  "mul a b =
     (case broadcast2 (broadcast2 (*)) a b of
        Inl e \<Rightarrow> Inl e
      | Inr rows \<Rightarrow> sequence rows)"

definition sum_dim1 :: "mat \<Rightarrow> vec" where
  "sum_dim1 t = map sum_list t"

text \<open>
  \<^verbatim>\<open>torch.argmax\<close> of a 1-D tensor: the index of the first maximal entry; an empty
  reduction dimension raises.
\<close>

fun argmax_first :: "real list \<Rightarrow> nat" where
  "argmax_first [] = 0"
| "argmax_first (x # xs) = (if list_all (\<lambda>y. y \<le> x) xs then 0 else Suc (argmax_first xs))"

definition argmax :: "real list \<Rightarrow> error + int" where
  "argmax xs = (if xs = [] then Inl IndexError else Inr (int (argmax_first xs)))"

text \<open>\<^verbatim>\<open>F.softmax(t, dim=1)\<close>, one row.\<close>

definition softmax :: "vec \<Rightarrow> vec" where
  "softmax xs = map (\<lambda>x. exp x / sum_list (map exp xs)) xs"

text \<open>
  \<^verbatim>\<open>torch.stack(similarities, dim=1)\<close> (and \<^verbatim>\<open>dim=-1\<close>, the same dimension for 1-D
  entries) of the triple of similarity vectors: row \<open>i\<close> is \<open>[sim_i ! i, sim_j ! i, sim_k ! i]\<close>;
  the three must have one size.
\<close>

definition stack :: "vec \<times> vec \<times> vec \<Rightarrow> error + mat" where
  "stack similarities =
     (case similarities of
        (sim_i, sim_j, sim_k) \<Rightarrow>
          if length sim_i = length sim_j \<and> length sim_j = length sim_k
          then Inr (map (\<lambda>(a, b, c). [a, b, c]) (zip sim_i (zip sim_j sim_k)))
          else Inl RuntimeError)"

text \<open>
  \<^verbatim>\<open>torch.unique(t).shape[0]\<close>: the number of distinct entries.
  \<^verbatim>\<open>t.round(decimals=2)\<close> scales by \<open>10\<^sup>2\<close>, rounds to the nearest integer with ties to
  even, and scales back.
\<close>

definition unique_count :: "real list \<Rightarrow> nat" where
  "unique_count xs = length (remdups xs)"

definition nearbyint :: "real \<Rightarrow> int" where
  "nearbyint x =
     (let f = \<lfloor>x\<rfloor>; d = x - of_int f
      in if d < 1 / 2 then f else if 1 / 2 < d then f + 1 else if even f then f else f + 1)"

definition round_decimals :: "nat \<Rightarrow> real \<Rightarrow> real" where
  "round_decimals k x = of_int (nearbyint (x * 10 ^ k)) / 10 ^ k"

text \<open>
  \<^verbatim>\<open>ndarray.mean()\<close>: the mean of no entries is \<^verbatim>\<open>nan\<close>, written \<open>None\<close>.
\<close>

definition np_mean :: "real list \<Rightarrow> real option" where
  "np_mean xs = (if xs = [] then None else Some (sum_list xs / real (length xs)))"

section \<open>The probe module \<^verbatim>\<open>FromScratch\<close>\<close>

text \<open>
  The attributes of \<^verbatim>\<open>FromScratch\<close> that the methods below read. The network is an
  opaque producer: \<open>model\<close> gives the logits of a batch, \<open>hooked_module\<close> the output of the
  module named \<^verbatim>\<open>self.module\<close>, which the forward hook stores in \<^verbatim>\<open>self.activations\<close>;
  it is \<open>None\<close> when no module has that name, so that no hook is registered and
  \<^verbatim>\<open>self.activations\<close> stays \<^verbatim>\<open>None\<close>. The two loss functions (\<^verbatim>\<open>TripletLoss\<close>,
  \<^verbatim>\<open>torch.nn.CrossEntropyLoss\<close>) are parameters. \<open>model_parameters\<close> lists the tensors of
  \<^verbatim>\<open>self.model.parameters()\<close>.
\<close>

record 'x from_scratch =
  optim :: string
  lr :: real
  lmbda :: real
  alpha :: real
  model :: "'x list \<Rightarrow> mat"
  hooked_module :: "('x list \<Rightarrow> mat) option"
  similarity_loss_fun :: "vec \<times> vec \<times> vec \<Rightarrow> real"
  classification_loss_fun :: "mat \<Rightarrow> int list \<Rightarrow> real"
  model_parameters :: "mat list"

type_synonym 'x batch = "('x list \<times> 'x list \<times> 'x list) \<times> ('x list \<times> int list)"

definition forward :: "'x from_scratch \<Rightarrow> 'x list \<Rightarrow> 'x list \<Rightarrow> mat option \<times> mat" where
  "forward self things_batch imagenet_batch_images =
     (let things_embeddings = map_option (\<lambda>h. h things_batch) (hooked_module self);
          imagenet_logits = model self imagenet_batch_images
      in (things_embeddings, imagenet_logits))"

definition convert_predictions :: "int list \<Rightarrow> int list" where
  "convert_predictions sim_predictions =
     (let first_conversion = map (\<lambda>p. if p \<noteq> 1 then p - 2 else p) sim_predictions;
          ooo_predictions = map (\<lambda>q. if q < 0 then 2 else q) first_conversion
      in ooo_predictions)"

definition compute_similarities :: "mat \<Rightarrow> mat \<Rightarrow> mat \<Rightarrow> error + (vec \<times> vec \<times> vec)" where
  "compute_similarities anchor positive negative =
     (case mul anchor positive of
        Inl e \<Rightarrow> Inl e
      | Inr ap \<Rightarrow>
          (case mul anchor negative of
             Inl e \<Rightarrow> Inl e
           | Inr an \<Rightarrow>
               (case mul positive negative of
                  Inl e \<Rightarrow> Inl e
                | Inr pn \<Rightarrow> Inr (sum_dim1 ap, sum_dim1 an, sum_dim1 pn))))"

definition break_ties_pmf :: "real list \<Rightarrow> error + int" where
  "break_ties_pmf pmf =
     (if unique_count pmf \<noteq> length pmf \<or> unique_count (map (round_decimals 2) pmf) = 1
      then Inr (- 1)
      else argmax pmf)"

definition break_ties :: "mat \<Rightarrow> error + int list" where
  "break_ties probas = sequence (map break_ties_pmf probas)"

text \<open>
  \<^verbatim>\<open>accuracy_\<close> (here \<open>accuracy'\<close>) returns the mean of the hit indicators when
  \<^verbatim>\<open>batching\<close> is set and their list otherwise.
\<close>

datatype acc_value = Batched "real option" | PerExample "int list"

definition accuracy' :: "mat \<Rightarrow> bool \<Rightarrow> error + acc_value" where
  "accuracy' probas batching =
     (case break_ties probas of
        Inl e \<Rightarrow> Inl e
      | Inr choices \<Rightarrow>
          (let argmax = map (\<lambda>c. if c = 0 then 1 else 0 :: int) choices
           in Inr (if batching then Batched (np_mean (map real_of_int argmax))
                   else PerExample argmax)))"

definition choice_accuracy :: "vec \<times> vec \<times> vec \<Rightarrow> error + acc_value" where
  "choice_accuracy similarities =
     (case stack similarities of
        Inl e \<Rightarrow> Inl e
      | Inr stacked \<Rightarrow> accuracy' (map softmax stacked) True)"

definition classification_accuracy :: "mat \<Rightarrow> int list \<Rightarrow> error + real" where
  "classification_accuracy logits labels =
     (case sequence (map argmax logits) of
        Inl e \<Rightarrow> Inl e
      | Inr max_idcs \<Rightarrow>
          (case broadcast2 (=) max_idcs labels of
             Inl e \<Rightarrow> Inl e
           | Inr hits \<Rightarrow>
               if length labels = 0 then Inl ZeroDivisionError
               else Inr (real (length (filter id hits)) / real (length labels))))"

text \<open>
  \<^verbatim>\<open>unbind\<close>: \<^verbatim>\<open>torch.reshape(embeddings, (3, -1, d))\<close> followed by \<^verbatim>\<open>torch.unbind\<close>.
  Reading \<^verbatim>\<open>.shape\<close> of \<^verbatim>\<open>None\<close> raises; so does the reshape when the tensor has no
  columns or when its row count is not a multiple of 3.
\<close>

definition unbind :: "mat option \<Rightarrow> error + (mat \<times> mat \<times> mat)" where
  "unbind embeddings =
     (case embeddings of
        None \<Rightarrow> Inl AttributeError
      | Some e \<Rightarrow>
          if (e \<noteq> [] \<and> hd e = []) \<or> length e mod 3 \<noteq> 0 then Inl RuntimeError
          else (let n = length e div 3
                in Inr (take n e, take n (drop n e), drop (2 * n) e)))"

text \<open>
  \<^verbatim>\<open>_step\<close> (here \<open>step\<close>). The result is the tuple \<open>(loss, classification_loss,
  classification_acc, similarity_loss, similarity_acc)\<close>.
\<close>

definition step ::
  "'x from_scratch \<Rightarrow> 'x batch \<Rightarrow> int \<Rightarrow>
   error + (real \<times> real \<times> real \<times> real \<times> acc_value)" where
  "step self batch batch_idx =
     (case batch of
        ((things0, things1, things2), (imagenet_batch_images, imagenet_batch_labels)) \<Rightarrow>
          (let things_batch_images = things0 @ things1 @ things2;
               (things_embeddings, imagenet_logits) =
                  forward self things_batch_images imagenet_batch_images
           in case unbind things_embeddings of
                Inl e \<Rightarrow> Inl e
              | Inr (anchor, positive, negative) \<Rightarrow>
                  (case compute_similarities anchor positive negative of
                     Inl e \<Rightarrow> Inl e
                   | Inr dots \<Rightarrow>
                       (let similarity_loss = similarity_loss_fun self dots
                        in case choice_accuracy dots of
                             Inl e \<Rightarrow> Inl e
                           | Inr similarity_acc \<Rightarrow>
                               (let classification_loss =
                                      classification_loss_fun self imagenet_logits
                                        imagenet_batch_labels
                                in case classification_accuracy imagenet_logits
                                          imagenet_batch_labels of
                                     Inl e \<Rightarrow> Inl e
                                   | Inr classification_acc \<Rightarrow>
                                       (let loss = (1 - alpha self) * similarity_loss
                                                   + alpha self * classification_loss
                                        in Inr (loss, classification_loss, classification_acc,
                                                similarity_loss, similarity_acc)))))))"

definition training_step :: "'x from_scratch \<Rightarrow> 'x batch \<Rightarrow> int \<Rightarrow> error + real" where
  "training_step self batch batch_idx =
     (case step self batch batch_idx of
        Inl e \<Rightarrow> Inl e
      | Inr (loss, classification_loss, classification_acc, similarity_loss, similarity_acc) \<Rightarrow>
          Inr loss)"

datatype metric = Scalar real | Acc acc_value

definition validation_step ::
  "'x from_scratch \<Rightarrow> 'x batch \<Rightarrow> int \<Rightarrow> error + (string \<times> metric) list" where
  "validation_step self batch batch_idx =
     (case step self batch batch_idx of
        Inl e \<Rightarrow> Inl e
      | Inr (loss, classification_loss, classification_acc, similarity_loss, similarity_acc) \<Rightarrow>
          Inr [(''val_loss'', Scalar loss),
               (''val_imgnt_loss'', Scalar classification_loss),
               (''val_imgnt_acc'', Scalar classification_acc),
               (''val_things_loss'', Scalar similarity_loss),
               (''val_things_acc'', Acc similarity_acc)])"

definition test_step ::
  "'x from_scratch \<Rightarrow> 'x batch \<Rightarrow> int \<Rightarrow> error + (string \<times> metric) list" where
  "test_step self batch batch_idx =
     (case step self batch batch_idx of
        Inl e \<Rightarrow> Inl e
      | Inr (loss, classification_loss, classification_acc, similarity_loss, similarity_acc) \<Rightarrow>
          Inr [(''test_loss'', Scalar loss),
               (''test_imgnt_loss'', Scalar classification_loss),
               (''test_imgnt_acc'', Scalar classification_acc),
               (''test_things_loss'', Scalar similarity_loss),
               (''test_things_acc'', Acc similarity_acc)])"

definition predict_step :: "'x from_scratch \<Rightarrow> 'x batch \<Rightarrow> int \<Rightarrow> error + int list" where
  "predict_step self batch batch_idx =
     (case batch of
        ((things0, things1, things2), (imagenet_batch_images, imagenet_batch_labels)) \<Rightarrow>
          (let things_batch_images = things0 @ things1 @ things2;
               (things_embeddings, imagenet_logits) =
                  forward self things_batch_images imagenet_batch_images
           in case unbind things_embeddings of
                Inl e \<Rightarrow> Inl e
              | Inr (anchor, positive, negative) \<Rightarrow>
                  (case compute_similarities anchor positive negative of
                     Inl e \<Rightarrow> Inl e
                   | Inr similarities \<Rightarrow>
                       (case stack similarities of
                          Inl e \<Rightarrow> Inl e
                        | Inr stacked \<Rightarrow>
                            (case sequence (map argmax (map softmax stacked)) of
                               Inl e \<Rightarrow> Inl e
                             | Inr sim_predictions \<Rightarrow>
                                 (let ooo_predictions = convert_predictions sim_predictions
                                  in Inr ooo_predictions))))))"

text \<open>
  \<^verbatim>\<open>configure_optimizers\<close>. Optimizer names are ASCII strings; \<^verbatim>\<open>str.lower\<close>,
  \<^verbatim>\<open>str.upper\<close> and \<^verbatim>\<open>str.capitalize\<close> act on the letters A-Z and a-z.
  \<^verbatim>\<open>getattr(torch.optim, name)\<close> finds the optimizer classes of the configuration
  surface and raises for a name that \<^verbatim>\<open>torch.optim\<close> does not have.
\<close>

definition lower_char :: "char \<Rightarrow> char" where
  "lower_char c = (let n = of_char c :: nat in if 65 \<le> n \<and> n \<le> 90 then char_of (n + 32) else c)"

definition upper_char :: "char \<Rightarrow> char" where
  "upper_char c = (let n = of_char c :: nat in if 97 \<le> n \<and> n \<le> 122 then char_of (n - 32) else c)"

definition lower :: "string \<Rightarrow> string" where
  "lower s = map lower_char s"

definition upper :: "string \<Rightarrow> string" where
  "upper s = map upper_char s"

definition capitalize :: "string \<Rightarrow> string" where
  "capitalize s = (case s of [] \<Rightarrow> [] | c # cs \<Rightarrow> upper_char c # map lower_char cs)"

datatype optimizer_class = Adam | AdamW | SGD

record optimizer =
  opt_class :: optimizer_class
  opt_params :: "mat list"
  opt_lr :: real
  opt_momentum :: "real option"
  opt_weight_decay :: real

definition getattr_torch_optim :: "string \<Rightarrow> error + optimizer_class" where
  "getattr_torch_optim name =
     (if name = ''Adam'' then Inr Adam
      else if name = ''AdamW'' then Inr AdamW
      else if name = ''SGD'' then Inr SGD
      else Inl AttributeError)"

text \<open>
  The constructor call \<^verbatim>\<open>optimizer(params, lr=..., momentum=..., weight_decay=...)\<close> of
  a \<^verbatim>\<open>torch.optim\<close> class, its other arguments at their defaults: torch raises
  \<^verbatim>\<open>ValueError\<close> for a negative learning rate, a negative momentum, a negative weight
  decay, and for an empty parameter list.
\<close>

definition torch_optimizer ::
  "optimizer_class \<Rightarrow> mat list \<Rightarrow> real \<Rightarrow> real option \<Rightarrow> real \<Rightarrow> error + optimizer" where
  "torch_optimizer cls params learning_rate momentum weight_decay =
     (if learning_rate < 0 \<or> (case momentum of None \<Rightarrow> False | Some m \<Rightarrow> m < 0)
         \<or> weight_decay < 0 \<or> params = []
      then Inl ValueError
      else Inr \<lparr>opt_class = cls, opt_params = params, opt_lr = learning_rate,
                opt_momentum = momentum, opt_weight_decay = weight_decay\<rparr>)"

definition configure_optimizers :: "'x from_scratch \<Rightarrow> error + optimizer" where
  "configure_optimizers self =
     (if lower (optim self) = ''adam'' then
        (case getattr_torch_optim (capitalize (optim self)) of
           Inl e \<Rightarrow> Inl e
         | Inr cls \<Rightarrow> torch_optimizer cls (model_parameters self) (lr self) None (lmbda self))
      else if lower (optim self) = ''sgd'' then
        (case getattr_torch_optim (upper (optim self)) of
           Inl e \<Rightarrow> Inl e
         | Inr cls \<Rightarrow>
             torch_optimizer cls (model_parameters self) (lr self) (Some (9 / 10)) (lmbda self))
      else Inl ValueError)"

section \<open>The driver \<^verbatim>\<open>run\<close>\<close>

text \<open>
  The configuration dictionary of \<^verbatim>\<open>create_optimization_config\<close>, one field per key.
\<close>

record optim_cfg =
  cfg_optim :: string
  cfg_lr :: real
  cfg_reg :: string
  cfg_lmbda :: real
  cfg_alpha :: real
  cfg_tau :: real
  cfg_contrastive_batch_size :: int
  cfg_triplet_batch_size :: int
  cfg_max_epochs :: int
  cfg_min_epochs :: int
  cfg_patience :: int
  cfg_use_bias :: bool
  cfg_ckptdir :: string
  cfg_sigma :: real

text \<open>
  The feature datasets built from \<^verbatim>\<open>features_type\<close> at the head of \<^verbatim>\<open>run\<close>: the
  \<^verbatim>\<open>if\<close>/\<^verbatim>\<open>elif\<close>/\<^verbatim>\<open>else\<close> chain with its string constants as written.
\<close>

datatype features_backend = FeaturesHDF5 | FeaturesPT

record features_dataset =
  backend :: features_backend
  root :: string
  split :: string
  device :: string

definition imagenet_features ::
  "string \<Rightarrow> string \<Rightarrow> string \<Rightarrow> error + (features_dataset \<times> features_dataset)" where
  "imagenet_features features_type imagenet_features_root dev =
     (if features_type = ''hdf'' then
        Inr (\<lparr>backend = FeaturesHDF5, root = imagenet_features_root, split = ''train_set'',
              device = dev\<rparr>,
             \<lparr>backend = FeaturesHDF5, root = imagenet_features_root, split = ''val'',
              device = dev\<rparr>)
      else if features_type = ''pt'' then
        Inr (\<lparr>backend = FeaturesPT, root = imagenet_features_root, split = ''train_set'',
              device = dev\<rparr>,
             \<lparr>backend = FeaturesPT, root = imagenet_features_root, split = ''val'',
              device = dev\<rparr>)
      else Inl ValueError)"

text \<open>
  Global normalisation of the feature matrix: \<^verbatim>\<open>(features - features.mean()) /
  features.std()\<close>, with the mean and the (population) standard deviation taken over all
  entries. When the matrix has entries and its standard deviation is 0, every entry of the
  result is \<^verbatim>\<open>0/0 = nan\<close>; that matrix is written \<open>None\<close>.
\<close>

definition mean_all :: "mat \<Rightarrow> real" where
  "mean_all F = sum_list (concat F) / real (length (concat F))"

definition std_all :: "mat \<Rightarrow> real" where
  "std_all F = sqrt (mean_all (map (map (\<lambda>x. \<bar>x - mean_all F\<bar> ^ 2)) F))"

definition normalize_features :: "mat \<Rightarrow> mat option" where
  "normalize_features F =
     (if concat F \<noteq> [] \<and> std_all F = 0 then None
      else Some (map (map (\<lambda>x. (x - mean_all F) / std_all F)) F))"

text \<open>
  A \<^verbatim>\<open>for\<close> loop over a list whose body may raise, \<^verbatim>\<open>break\<close> or fall through to the
  next element.
\<close>

datatype ctl = Break | Continue

fun for_loop :: "('a \<Rightarrow> 's \<Rightarrow> error + ('s \<times> ctl)) \<Rightarrow> 'a list \<Rightarrow> 's \<Rightarrow> error + 's" where
  "for_loop body [] s = Inr s"
| "for_loop body (x # xs) s =
     (case body x s of
        Inl e \<Rightarrow> Inl e
      | Inr (s', Break) \<Rightarrow> Inr s'
      | Inr (s', Continue) \<Rightarrow> for_loop body xs s')"

text \<open>The dictionary key \<^verbatim>\<open>f"fold_{k:02d}"\<close>.\<close>

fun digits :: "nat \<Rightarrow> string" where
  "digits n = (if n < 10 then [char_of (48 + n)] else digits (n div 10) @ [char_of (48 + n mod 10)])"

definition fold_key :: "nat \<Rightarrow> string" where
  "fold_key k = ''fold_'' @ (if k < 10 then ''0'' else []) @ digits k"

text \<open>
  The collaborators of \<^verbatim>\<open>run\<close> that live outside this module are parameters:
  \<^verbatim>\<open>utils.probing.load_triplets\<close>; the generator \<^verbatim>\<open>KFold(n_splits=4, random_state=rnd_seed,
  shuffle=True).split(objects)\<close>, which raises or yields (train, test) index lists; and the
  work of one fold on its inputs (triplet partitioning, batching, the probe and the
  trainer's \<^verbatim>\<open>fit\<close>, \<^verbatim>\<open>test\<close> and \<^verbatim>\<open>predict\<close>), which yields the validation performance,
  one tensor of predicted choices per validation batch and the trained probe's parameters.
\<close>

record fold_input =
  fi_features :: "mat option"
  fi_triplets :: "(nat \<times> nat \<times> nat) list"
  fi_train_objects :: "nat list"
  fi_n_objects :: int
  fi_optim_cfg :: optim_cfg
  fi_imagenet_train_features :: features_dataset
  fi_imagenet_val_features :: features_dataset
  fi_device :: string
  fi_num_processes :: int

record 'm fold_outcome =
  val_performance :: 'm
  predictions :: "int list list"
  transform_w :: mat
  transform_b :: vec

record 'm collaborators =
  load_triplets :: "string \<Rightarrow> (nat \<times> nat \<times> nat) list"
  kf_split :: "int \<Rightarrow> nat list \<Rightarrow> error + (nat list \<times> nat list) list"
  train_fold :: "fold_input \<Rightarrow> 'm fold_outcome"

record transformation =
  weights :: mat
  bias :: "vec option"

type_synonym 'm run_state = "(string \<rightharpoonup> 'm) \<times> int list list \<times> 'm fold_outcome option"

text \<open>
  The body of the fold loop, with the state \<open>(cv_results, ooo_choices, glocal_probe)\<close>.
  Indexing \<^verbatim>\<open>objects[train_idx]\<close> out of range and \<^verbatim>\<open>torch.cat\<close> of an empty list
  of prediction tensors raise. The body ends in the source's unconditional \<^verbatim>\<open>break\<close>.
\<close>

definition fold_body ::
  "'m collaborators \<Rightarrow> fold_input \<Rightarrow> nat list \<Rightarrow> nat \<times> (nat list \<times> nat list) \<Rightarrow>
   'm run_state \<Rightarrow> error + ('m run_state \<times> ctl)" where
  "fold_body env inp objects item st =
     (case (item, st) of
        ((k, (train_idx, _)), (cv_results, ooo_choices, _)) \<Rightarrow>
          if \<not> list_all (\<lambda>i. i < length objects) train_idx then Inl IndexError
          else
            (let train_objects = map (\<lambda>i. objects ! i) train_idx;
                 glocal_probe = train_fold env (inp\<lparr>fi_train_objects := train_objects\<rparr>)
             in if predictions glocal_probe = [] then Inl RuntimeError
                else
                  (let preds = concat (predictions glocal_probe);
                       ooo_choices = ooo_choices @ [preds];
                       cv_results = cv_results(fold_key k \<mapsto> val_performance glocal_probe)
                   in Inr ((cv_results, ooo_choices, Some glocal_probe), Break))))"

text \<open>
  \<^verbatim>\<open>run\<close>. The callbacks of \<^verbatim>\<open>get_callbacks\<close> (checkpointing and early stopping) are
  built first and handed to the trainer; they are part of the work of a fold. A split
  without folds leaves \<^verbatim>\<open>glocal_probe\<close> unbound at the export of the transformation.
  The result is \<open>(ooo_choices, cv_results, transformation)\<close>.
\<close>

definition run ::
  "'m collaborators \<Rightarrow> mat \<Rightarrow> string \<Rightarrow> string \<Rightarrow> optim_cfg \<Rightarrow> int \<Rightarrow> string \<Rightarrow> int \<Rightarrow> int \<Rightarrow>
   string \<Rightarrow> error + (int list \<times> (string \<rightharpoonup> 'm) \<times> transformation)" where
  "run env features imagenet_features_root data_root cfg n_objects dev rnd_seed
       num_processes features_type =
     (case imagenet_features features_type imagenet_features_root dev of
        Inl e \<Rightarrow> Inl e
      | Inr (imagenet_train_features, imagenet_val_features) \<Rightarrow>
          (let triplets = load_triplets env data_root;
               features = normalize_features features;
               objects = [0..<nat n_objects];
               inp = \<lparr>fi_features = features, fi_triplets = triplets, fi_train_objects = [],
                      fi_n_objects = n_objects, fi_optim_cfg = cfg,
                      fi_imagenet_train_features = imagenet_train_features,
                      fi_imagenet_val_features = imagenet_val_features,
                      fi_device = dev, fi_num_processes = num_processes\<rparr>
           in case kf_split env rnd_seed objects of
                Inl e \<Rightarrow> Inl e
              | Inr splits \<Rightarrow>
                  (case for_loop (fold_body env inp objects)
                          (enumerate 1 splits) (Map.empty, [], None) of
                     Inl e \<Rightarrow> Inl e
                   | Inr (cv_results, ooo_choices, None) \<Rightarrow> Inl UnboundLocalError
                   | Inr (cv_results, ooo_choices, Some glocal_probe) \<Rightarrow>
                       Inr (concat ooo_choices, cv_results,
                            \<lparr>weights = transform_w glocal_probe,
                             bias = (if cfg_use_bias cfg then Some (transform_b glocal_probe)
                                     else None)\<rparr>))))"

section \<open>Reference notions\<close>

text \<open>The inner product of two rows, as a sum over the index.\<close>

definition dot :: "real list \<Rightarrow> real list \<Rightarrow> real" where
  "dot xs ys = (\<Sum>i < length xs. xs ! i * ys ! i)"

section \<open>Properties\<close>

subsection \<open>Tie breaking\<close>

lemma sequence_map_Inr:
  "(\<And>x. x \<in> set xs \<Longrightarrow> f x = Inr (g x)) \<Longrightarrow> sequence (map f xs) = Inr (map g xs)"
  by (induction xs) auto

lemma unique_count_distinct: "(unique_count xs \<noteq> length xs) = (\<not> distinct xs)"
  unfolding unique_count_def
  by (metis distinct_remdups length_remdups_eq remdups_id_iff_distinct)

lemma unique_count_three_one:
  "(unique_count [x, y, z] = 1) = (x = y \<and> y = z)"
  unfolding unique_count_def by auto

lemma argmax_first_less: "xs \<noteq> [] \<Longrightarrow> argmax_first xs < length xs"
proof (induction xs)
  case Nil
  then show ?case by simp
next
  case (Cons x xs)
  show ?case
  proof (cases "list_all (\<lambda>y. y \<le> x) xs")
    case True
    then show ?thesis by simp
  next
    case False
    then have "xs \<noteq> []" by auto
    then show ?thesis using False Cons.IH by simp
  qed
qed

lemma argmax_first_max: "xs \<noteq> [] \<Longrightarrow> y \<in> set xs \<Longrightarrow> y \<le> xs ! argmax_first xs"
proof (induction xs arbitrary: y)
  case Nil
  then show ?case by simp
next
  case (Cons x xs)
  show ?case
  proof (cases "list_all (\<lambda>y. y \<le> x) xs")
    case True
    then show ?thesis using Cons.prems by (auto simp: list_all_iff)
  next
    case False
    then have ne: "xs \<noteq> []" by auto
    from False obtain z where z: "z \<in> set xs" "x < z" by (auto simp: list_all_iff not_le)
    have "z \<le> xs ! argmax_first xs" using Cons.IH[OF ne z(1)] .
    then have "x \<le> xs ! argmax_first xs" using z(2) by simp
    then show ?thesis using False Cons.prems Cons.IH[OF ne] by auto
  qed
qed

lemma argmax_first_Max: "xs \<noteq> [] \<Longrightarrow> xs ! argmax_first xs = Max (set xs)"
  by (intro antisym Max_ge Max.boundedI) (auto simp: argmax_first_less argmax_first_max)

lemma break_ties_three:
  "break_ties [[a, b, c]] =
     Inr [if \<not> distinct [a, b, c] \<or>
             (round_decimals 2 a = round_decimals 2 b \<and> round_decimals 2 b = round_decimals 2 c)
          then - 1 else int (argmax_first [a, b, c])]"
  unfolding break_ties_def break_ties_pmf_def unique_count_distinct
  by (simp only: list.map unique_count_three_one sequence.simps argmax_def) auto

text \<open>
  Claim C3. On a vector of three probabilities \<^verbatim>\<open>break_ties\<close> returns the sentinel \<open>-1\<close>
  when the three entries are not all distinct, or when their roundings to 2 decimal places
  are one value; otherwise it returns the index of the maximal entry. The inputs
  \<open>[0.5, 0.5, 0.0]\<close> and \<open>[0.34, 0.33, 0.33]\<close> give \<open>-1\<close>, and \<open>[0.7, 0.2, 0.1]\<close>
  gives \<open>0\<close>.
\<close>

theorem break_ties_three_entries:
  "((\<not> distinct [a, b, c] \<or>
      (round_decimals 2 a = round_decimals 2 b \<and> round_decimals 2 b = round_decimals 2 c))
     \<longrightarrow> break_ties [[a, b, c]] = Inr [- 1])
   \<and> (distinct [a, b, c] \<and>
      \<not> (round_decimals 2 a = round_decimals 2 b \<and> round_decimals 2 b = round_decimals 2 c)
     \<longrightarrow> (\<exists>i<3. break_ties [[a, b, c]] = Inr [int i] \<and> [a, b, c] ! i = Max {a, b, c}))
   \<and> break_ties [[1 / 2, 1 / 2, 0]] = Inr [- 1]
   \<and> break_ties [[34 / 100, 33 / 100, 33 / 100]] = Inr [- 1]
   \<and> break_ties [[7 / 10, 2 / 10, 1 / 10]] = Inr [0]"
proof (intro conjI impI)
  assume "\<not> distinct [a, b, c] \<or>
      (round_decimals 2 a = round_decimals 2 b \<and> round_decimals 2 b = round_decimals 2 c)"
  then show "break_ties [[a, b, c]] = Inr [- 1]"
    by (simp only: break_ties_three if_True)
next
  assume h: "distinct [a, b, c] \<and>
      \<not> (round_decimals 2 a = round_decimals 2 b \<and> round_decimals 2 b = round_decimals 2 c)"
  have "argmax_first [a, b, c] < 3" using argmax_first_less[of "[a, b, c]"] by simp
  moreover have "[a, b, c] ! argmax_first [a, b, c] = Max {a, b, c}"
    using argmax_first_Max[of "[a, b, c]"] by simp
  moreover have "break_ties [[a, b, c]] = Inr [int (argmax_first [a, b, c])]"
    using h by (simp only: break_ties_three) simp
  ultimately show "\<exists>i<3. break_ties [[a, b, c]] = Inr [int i] \<and> [a, b, c] ! i = Max {a, b, c}"
    by blast
next
  show "break_ties [[1 / 2, 1 / 2, 0]] = Inr [- 1]"
    by (simp add: break_ties_def break_ties_pmf_def unique_count_def)
next
  show "break_ties [[34 / 100, 33 / 100, 33 / 100]] = Inr [- 1]"
    by (simp add: break_ties_def break_ties_pmf_def unique_count_def)
next
  show "break_ties [[7 / 10, 2 / 10, 1 / 10]] = Inr [0]"
    by (simp add: break_ties_def break_ties_pmf_def unique_count_def round_decimals_def
        nearbyint_def argmax_def)
qed

theorem break_ties_three_entries_witness:
  "distinct [334 / 1000, 333 / 1000, 3331 / 10000 :: real]
   \<and> round_decimals 2 (334 / 1000) = round_decimals 2 (333 / 1000)
   \<and> round_decimals 2 (333 / 1000) = round_decimals 2 (3331 / 10000)
   \<and> break_ties [[334 / 1000, 333 / 1000, 3331 / 10000]] = Inr [- 1]
   \<and> distinct [2 / 10, 7 / 10, 1 / 10 :: real]
   \<and> round_decimals 2 (2 / 10) \<noteq> round_decimals 2 (7 / 10)
   \<and> (\<exists>i<3. break_ties [[2 / 10, 7 / 10, 1 / 10]] = Inr [int i]
          \<and> [2 / 10, 7 / 10, 1 / 10 :: real] ! i = Max {2 / 10, 7 / 10, 1 / 10})"
proof -
  have r: "round_decimals 2 (334 / 1000) = round_decimals 2 (333 / 1000)"
    "round_decimals 2 (333 / 1000) = round_decimals 2 (3331 / 10000)"
    "round_decimals 2 (2 / 10) \<noteq> round_decimals 2 (7 / 10)"
    by (simp_all add: round_decimals_def nearbyint_def)
  have d: "distinct [334 / 1000, 333 / 1000, 3331 / 10000 :: real]"
    "distinct [2 / 10, 7 / 10, 1 / 10 :: real]" by simp_all
  show ?thesis
    using break_ties_three_entries[of "334 / 1000" "333 / 1000" "3331 / 10000"]
      break_ties_three_entries[of "2 / 10" "7 / 10" "1 / 10"] r d
    by (simp only: simp_thms) 
qed

lemma break_ties_pmf_nonempty:
  "pmf \<noteq> [] \<Longrightarrow>
   break_ties_pmf pmf =
     Inr (if unique_count pmf \<noteq> length pmf \<or> unique_count (map (round_decimals 2) pmf) = 1
          then - 1 else int (argmax_first pmf))"
  by (simp add: break_ties_pmf_def argmax_def)

lemma break_ties_nonempty_rows:
  assumes "\<And>pmf. pmf \<in> set probas \<Longrightarrow> pmf \<noteq> []"
  shows "break_ties probas =
     Inr (map (\<lambda>pmf. if unique_count pmf \<noteq> length pmf \<or>
                        unique_count (map (round_decimals 2) pmf) = 1
                     then - 1 else int (argmax_first pmf)) probas)"
  unfolding break_ties_def
  by (rule sequence_map_Inr) (simp add: break_ties_pmf_nonempty assms)

lemma sum_list_hits:
  "sum_list (map real_of_int (map (\<lambda>c. if c = 0 then 1 else 0) (cs :: int list)))
     = real (length (filter (\<lambda>c. c = 0) cs))"
  by (induction cs) auto

lemma length_filter_mono:
  "(\<And>x. x \<in> set xs \<Longrightarrow> P x \<Longrightarrow> Q x) \<Longrightarrow> length (filter P xs) \<le> length (filter Q xs)"
  by (induction xs) auto

text \<open>
  Claim C10. For a non-empty batch of 3-entry probability vectors the batched accuracy is
  the number of rows whose tie-broken choice is \<open>0\<close>, divided by the number of rows. A row
  whose choice is the sentinel \<open>-1\<close> has hit indicator \<open>0\<close>, and the accuracy is at most
  the fraction of rows whose plain arg-max is \<open>0\<close>: ambiguous rows never raise it.
\<close>

theorem accuracy_counts_zero_choices:
  assumes ne: "probas \<noteq> []" and three: "\<forall>pmf \<in> set probas. length pmf = 3"
  shows "\<exists>choices.
           break_ties probas = Inr choices \<and> length choices = length probas
         \<and> accuracy' probas True =
             Inr (Batched (Some (real (length (filter (\<lambda>c. c = 0) choices))
                                  / real (length probas))))
         \<and> accuracy' probas False = Inr (PerExample (map (\<lambda>c. if c = 0 then 1 else 0) choices))
         \<and> (\<forall>i < length probas. choices ! i = - 1 \<longrightarrow>
               map (\<lambda>c. if c = 0 then 1 else 0 :: int) choices ! i = 0)
         \<and> real (length (filter (\<lambda>c. c = 0) choices)) / real (length probas)
             \<le> real (length (filter (\<lambda>pmf. argmax pmf = Inr 0) probas)) / real (length probas)"
proof -
  define ch where "ch = (\<lambda>pmf :: real list.
     if unique_count pmf \<noteq> length pmf \<or> unique_count (map (round_decimals 2) pmf) = 1
     then - 1 else int (argmax_first pmf))"
  have rows: "pmf \<noteq> []" if "pmf \<in> set probas" for pmf
    using three that by fastforce
  have bt: "break_ties probas = Inr (map ch probas)"
    unfolding ch_def by (rule break_ties_nonempty_rows) (rule rows)
  have len: "length (map ch probas) = length probas" by simp
  have batched: "accuracy' probas True =
      Inr (Batched (Some (real (length (filter (\<lambda>c. c = 0) (map ch probas)))
                           / real (length probas))))"
    using ne by (simp add: accuracy'_def bt np_mean_def sum_list_hits del: map_map)
  have perex: "accuracy' probas False =
      Inr (PerExample (map (\<lambda>c. if c = 0 then 1 else 0) (map ch probas)))"
    by (simp add: accuracy'_def bt)
  have sentinel: "\<forall>i < length probas. map ch probas ! i = - 1 \<longrightarrow>
      map (\<lambda>c. if c = 0 then 1 else 0 :: int) (map ch probas) ! i = 0"
    by simp
  have "length (filter (\<lambda>c. c = 0) (map ch probas))
          = length (filter (\<lambda>pmf. ch pmf = 0) probas)"
    by (simp add: filter_map comp_def)
  also have "\<dots> \<le> length (filter (\<lambda>pmf. argmax pmf = Inr 0) probas)"
  proof (rule length_filter_mono)
    fix pmf assume "pmf \<in> set probas" and z: "ch pmf = 0"
    then have "pmf \<noteq> []" using rows by simp
    moreover have "int (argmax_first pmf) = 0"
      using z unfolding ch_def by (simp split: if_splits)
    ultimately show "argmax pmf = Inr 0" by (simp add: argmax_def)
  qed
  finally have "real (length (filter (\<lambda>c. c = 0) (map ch probas))) / real (length probas)
      \<le> real (length (filter (\<lambda>pmf. argmax pmf = Inr 0) probas)) / real (length probas)"
    by (simp add: divide_right_mono)
  with bt len batched perex sentinel show ?thesis by blast
qed

theorem accuracy_counts_zero_choices_witness:
  "[[7 / 10, 2 / 10, 1 / 10], [1 / 2, 1 / 2, 0 :: real]] \<noteq> []
   \<and> list_all (\<lambda>pmf. length pmf = 3) [[7 / 10, 2 / 10, 1 / 10], [1 / 2, 1 / 2, 0 :: real]]
   \<and> break_ties [[7 / 10, 2 / 10, 1 / 10], [1 / 2, 1 / 2, 0]] = Inr [0, - 1]
   \<and> accuracy' [[7 / 10, 2 / 10, 1 / 10], [1 / 2, 1 / 2, 0]] True = Inr (Batched (Some (1 / 2)))
   \<and> length (filter (\<lambda>pmf. argmax pmf = Inr 0)
        [[7 / 10, 2 / 10, 1 / 10], [1 / 2, 1 / 2, 0 :: real]]) = 2"
proof -
  have bt: "break_ties [[7 / 10, 2 / 10, 1 / 10], [1 / 2, 1 / 2, 0]] = Inr [0, - 1]"
    by (simp add: break_ties_def break_ties_pmf_def unique_count_def round_decimals_def
        nearbyint_def argmax_def)
  have am: "length (filter (\<lambda>pmf. argmax pmf = Inr 0)
        [[7 / 10, 2 / 10, 1 / 10], [1 / 2, 1 / 2, 0 :: real]]) = 2"
    by (simp add: argmax_def)
  have h: "[[7 / 10, 2 / 10, 1 / 10], [1 / 2, 1 / 2, 0 :: real]] \<noteq> []"
    "\<forall>pmf \<in> set [[7 / 10, 2 / 10, 1 / 10], [1 / 2, 1 / 2, 0 :: real]]. length pmf = 3"
    by simp_all
  from accuracy_counts_zero_choices[OF h] bt
  have "accuracy' [[7 / 10, 2 / 10, 1 / 10], [1 / 2, 1 / 2, 0]] True = Inr (Batched (Some (1 / 2)))"
    by auto
  moreover have "list_all (\<lambda>pmf. length pmf = 3)
      [[7 / 10, 2 / 10, 1 / 10], [1 / 2, 1 / 2, 0 :: real]]" by simp
  ultimately show ?thesis using bt am h(1) by blast
qed

subsection \<open>Similarities and conversion\<close>

lemma sum_list_map2_dot:
  "length xs = length ys \<Longrightarrow> sum_list (map2 (*) xs ys) = dot xs ys"
  unfolding dot_def
  by (simp add: sum_list_sum_nth atLeast0LessThan)

lemma sequence_Inr: "sequence (map Inr xs) = Inr xs"
  by (induction xs) auto

lemma broadcast2_equal: "length xs = length ys \<Longrightarrow> broadcast2 f xs ys = Inr (map2 f xs ys)"
  by (simp add: broadcast2_def)

lemma mul_equal_shape:
  assumes "length a = length b" and "\<And>r. r \<in> set a \<union> set b \<Longrightarrow> length r = d"
  shows "mul a b = Inr (map2 (map2 (*)) a b)"
proof -
  have "map2 (broadcast2 (*)) a b = map Inr (map2 (map2 (*)) a b)"
    using assms
  proof (induction a b rule: list_induct2)
    case Nil
    then show ?case by simp
  next
    case (Cons x xs y ys)
    then show ?case by (simp add: broadcast2_equal)
  qed
  moreover have "broadcast2 (broadcast2 (*)) a b = Inr (map2 (broadcast2 (*)) a b)"
    using assms(1) by (rule broadcast2_equal)
  ultimately show ?thesis by (simp only: mul_def sequence_Inr sum.case)
qed

lemma sum_dim1_mul:
  assumes "length a = length b" and "\<And>r. r \<in> set a \<union> set b \<Longrightarrow> length r = d"
  shows "sum_dim1 (map2 (map2 (*)) a b) = map2 dot a b"
  using assms
proof (induction a b rule: list_induct2)
  case Nil
  then show ?case by (simp add: sum_dim1_def)
next
  case (Cons x xs y ys)
  then show ?case by (simp add: sum_dim1_def sum_list_map2_dot)
qed

lemma compute_similarities_equal_shape:
  assumes "length anchor = n" "length positive = n" "length negative = n"
    and "\<And>r. r \<in> set anchor \<union> set positive \<union> set negative \<Longrightarrow> length r = d"
  shows "compute_similarities anchor positive negative =
           Inr (map2 dot anchor positive, map2 dot anchor negative, map2 dot positive negative)"
proof -
  have "mul anchor positive = Inr (map2 (map2 (*)) anchor positive)"
    "mul anchor negative = Inr (map2 (map2 (*)) anchor negative)"
    "mul positive negative = Inr (map2 (map2 (*)) positive negative)"
    using assms by (auto intro!: mul_equal_shape[where d = d])
  moreover have "sum_dim1 (map2 (map2 (*)) anchor positive) = map2 dot anchor positive"
    "sum_dim1 (map2 (map2 (*)) anchor negative) = map2 dot anchor negative"
    "sum_dim1 (map2 (map2 (*)) positive negative) = map2 dot positive negative"
    using assms by (auto intro!: sum_dim1_mul[where d = d])
  ultimately show ?thesis by (simp add: compute_similarities_def)
qed

lemma convert_predictions_nth:
  "i < length ps \<Longrightarrow>
   convert_predictions ps ! i = (if ps ! i = 1 then 1 else if ps ! i < 2 then 2 else ps ! i - 2)"
  by (auto simp: convert_predictions_def Let_def)

text \<open>
  Claim C4. For anchor, positive and negative tensors of one shape (\<open>n\<close> rows of width
  \<open>d\<close>) \<^verbatim>\<open>compute_similarities\<close> returns, in this order, the row-wise inner products
  anchor\<open>\<cdot>\<close>positive, anchor\<open>\<cdot>\<close>negative and positive\<open>\<cdot>\<close>negative; and
  \<^verbatim>\<open>convert_predictions\<close> maps the index of the closest pair to the member outside
  it: \<open>0 \<mapsto> 2\<close>, \<open>1 \<mapsto> 1\<close>, \<open>2 \<mapsto> 0\<close>.
\<close>

theorem similarities_and_conversion:
  assumes "length anchor = n" "length positive = n" "length negative = n"
    and "\<forall>r \<in> set anchor \<union> set positive \<union> set negative. length r = d"
  shows "(\<exists>sim_i sim_j sim_k.
           compute_similarities anchor positive negative = Inr (sim_i, sim_j, sim_k)
         \<and> length sim_i = n \<and> length sim_j = n \<and> length sim_k = n
         \<and> (\<forall>i < n. sim_i ! i = (\<Sum>j < d. anchor ! i ! j * positive ! i ! j)
                  \<and> sim_j ! i = (\<Sum>j < d. anchor ! i ! j * negative ! i ! j)
                  \<and> sim_k ! i = (\<Sum>j < d. positive ! i ! j * negative ! i ! j)))
       \<and> convert_predictions [0, 1, 2] = [2, 1, 0]
       \<and> length (convert_predictions ps) = length ps
       \<and> (\<forall>i < length ps. (ps ! i = 0 \<longrightarrow> convert_predictions ps ! i = 2)
                      \<and> (ps ! i = 1 \<longrightarrow> convert_predictions ps ! i = 1)
                      \<and> (ps ! i = 2 \<longrightarrow> convert_predictions ps ! i = 0))"
proof (intro conjI)
  have rows: "\<And>r. r \<in> set anchor \<union> set positive \<union> set negative \<Longrightarrow> length r = d"
    using assms(4) by blast
  have cs: "compute_similarities anchor positive negative =
           Inr (map2 dot anchor positive, map2 dot anchor negative, map2 dot positive negative)"
    by (rule compute_similarities_equal_shape[OF assms(1-3) rows])
  have nth: "dot (a ! i) (b ! i) = (\<Sum>j < d. a ! i ! j * b ! i ! j)"
    if "i < length a" "\<And>r. r \<in> set a \<Longrightarrow> length r = d" for a b :: mat and i
    using that by (simp add: dot_def)
  have "\<forall>i < n. map2 dot anchor positive ! i = (\<Sum>j < d. anchor ! i ! j * positive ! i ! j)
       \<and> map2 dot anchor negative ! i = (\<Sum>j < d. anchor ! i ! j * negative ! i ! j)
       \<and> map2 dot positive negative ! i = (\<Sum>j < d. positive ! i ! j * negative ! i ! j)"
    using assms(1-3) rows by (simp add: nth)
  then show "\<exists>sim_i sim_j sim_k.
           compute_similarities anchor positive negative = Inr (sim_i, sim_j, sim_k)
         \<and> length sim_i = n \<and> length sim_j = n \<and> length sim_k = n
         \<and> (\<forall>i < n. sim_i ! i = (\<Sum>j < d. anchor ! i ! j * positive ! i ! j)
                  \<and> sim_j ! i = (\<Sum>j < d. anchor ! i ! j * negative ! i ! j)
                  \<and> sim_k ! i = (\<Sum>j < d. positive ! i ! j * negative ! i ! j))"
    using cs assms(1-3) by simp
  show "convert_predictions [0, 1, 2] = [2, 1, 0]"
    by (simp add: convert_predictions_def)
  show "length (convert_predictions ps) = length ps"
    by (simp add: convert_predictions_def)
  show "\<forall>i < length ps. (ps ! i = 0 \<longrightarrow> convert_predictions ps ! i = 2)
                      \<and> (ps ! i = 1 \<longrightarrow> convert_predictions ps ! i = 1)
                      \<and> (ps ! i = 2 \<longrightarrow> convert_predictions ps ! i = 0)"
    by (simp add: convert_predictions_nth)
qed

theorem similarities_and_conversion_witness:
  "length [[1, 2 :: real]] = 1 \<and> length [[3, 4 :: real]] = 1 \<and> length [[5, 6 :: real]] = 1
   \<and> list_all (\<lambda>r. length r = 2) ([[1, 2 :: real]] @ [[3, 4]] @ [[5, 6]])
   \<and> compute_similarities [[1, 2]] [[3, 4]] [[5, 6]] = Inr ([11], [17], [39])
   \<and> convert_predictions [2, 0, 1, 0] = [0, 2, 1, 2]"
proof -
  have h: "length [[1, 2 :: real]] = 1" "length [[3, 4 :: real]] = 1" "length [[5, 6 :: real]] = 1"
    "\<forall>r \<in> set [[1, 2 :: real]] \<union> set [[3, 4]] \<union> set [[5, 6]]. length r = 2"
    by simp_all
  have ev: "compute_similarities [[1, 2]] [[3, 4]] [[5, 6]] = Inr ([11], [17], [39])"
    by (simp add: compute_similarities_def mul_def broadcast2_def sum_dim1_def)
  have cv: "convert_predictions [2, 0, 1, 0] = [0, 2, 1, 2]"
    by (simp add: convert_predictions_def)
  have la: "list_all (\<lambda>r. length r = 2) ([[1, 2 :: real]] @ [[3, 4]] @ [[5, 6]])"
    by simp
  show ?thesis
    using similarities_and_conversion[OF h, of "[2, 0, 1, 0]"] h(1-3) la ev cv
    by (simp only: simp_thms)
qed

subsection \<open>The combined loss\<close>

lemma step_Inr_loss:
  assumes "step self batch batch_idx = Inr (loss, cl, ca, sl, sa)"
  shows "loss = (1 - alpha self) * sl + alpha self * cl"
  using assms unfolding step_def
  by (auto simp: Let_def split: prod.splits sum.splits)

lemma step_Inr_parts:
  assumes "step self ((things0, things1, things2), (images, labels)) batch_idx
             = Inr (loss, cl, ca, sl, sa)"
  shows "\<exists>anchor positive negative dots.
           unbind (fst (forward self (things0 @ things1 @ things2) images))
             = Inr (anchor, positive, negative)
         \<and> compute_similarities anchor positive negative = Inr dots
         \<and> sl = similarity_loss_fun self dots
         \<and> cl = classification_loss_fun self (snd (forward self (things0 @ things1 @ things2) images)) labels"
  using assms unfolding step_def
  by (auto simp: Let_def split: prod.splits sum.splits)

lemma unbind_wellformed:
  assumes "length E = 3 * n" "\<And>r. r \<in> set E \<Longrightarrow> length r = d" "0 < d"
  shows "unbind (Some E) = Inr (take n E, take n (drop n E), drop (2 * n) E)"
proof -
  have "hd E \<noteq> []" if "E \<noteq> []"
    using assms(2)[of "hd E"] assms(3) that by auto
  then show ?thesis using assms(1) by (auto simp: unbind_def Let_def)
qed

lemma stack_equal:
  "length si = length sj \<Longrightarrow> length sj = length sk \<Longrightarrow>
   stack (si, sj, sk) = Inr (map (\<lambda>(a, b, c). [a, b, c]) (zip si (zip sj sk)))"
  by (simp add: stack_def)

lemma softmax_length: "length (softmax xs) = length xs"
  by (simp add: softmax_def)

lemma choice_accuracy_returns:
  assumes "length si = length sj" "length sj = length sk"
  shows "\<exists>acc. choice_accuracy (si, sj, sk) = Inr acc"
proof -
  let ?st = "map (\<lambda>(a, b, c). [a, b, c]) (zip si (zip sj sk))"
  have "pmf \<noteq> []" if "pmf \<in> set (map softmax ?st)" for pmf
    using that by (auto simp: softmax_def)
  from break_ties_nonempty_rows[of "map softmax ?st", OF this]
  obtain cs where "break_ties (map softmax ?st) = Inr cs" by blast
  then show ?thesis
    by (simp add: choice_accuracy_def stack_equal[OF assms] accuracy'_def)
qed

lemma classification_accuracy_returns:
  assumes "\<And>r. r \<in> set logits \<Longrightarrow> r \<noteq> []" "length labels = length logits" "labels \<noteq> []"
  shows "\<exists>acc. classification_accuracy logits labels = Inr acc"
proof -
  have "sequence (map argmax logits) = Inr (map (\<lambda>r. int (argmax_first r)) logits)"
    by (rule sequence_map_Inr) (simp add: argmax_def assms(1))
  then show ?thesis
    using assms(2,3) by (auto simp: classification_accuracy_def broadcast2_equal)
qed

lemma thirds_shape:
  assumes "length E = 3 * n" "\<And>r. r \<in> set E \<Longrightarrow> length r = d"
  shows "length (take n E) = n" "length (take n (drop n E)) = n" "length (drop (2 * n) E) = n"
    "\<And>r. r \<in> set (take n E) \<union> set (take n (drop n E)) \<union> set (drop (2 * n) E) \<Longrightarrow> length r = d"
  using assms by (auto dest!: in_set_takeD in_set_dropD)

lemma step_returns:
  assumes "hooked_module self = Some h" "length (h (things0 @ things1 @ things2)) = 3 * n"
    and "\<And>r. r \<in> set (h (things0 @ things1 @ things2)) \<Longrightarrow> length r = d" "0 < d"
    and "\<And>r. r \<in> set (model self images) \<Longrightarrow> r \<noteq> []"
    and "length labels = length (model self images)" "labels \<noteq> []"
  shows "\<exists>ca sa.
           step self ((things0, things1, things2), (images, labels)) batch_idx
             = (let E = h (things0 @ things1 @ things2);
                    dots = (map2 dot (take n E) (take n (drop n E)),
                            map2 dot (take n E) (drop (2 * n) E),
                            map2 dot (take n (drop n E)) (drop (2 * n) E))
                in Inr ((1 - alpha self) * similarity_loss_fun self dots
                          + alpha self * classification_loss_fun self (model self images) labels,
                        classification_loss_fun self (model self images) labels, ca,
                        similarity_loss_fun self dots, sa))"
proof -
  let ?E = "h (things0 @ things1 @ things2)"
  note sh = thirds_shape[OF assms(2) assms(3)]
  have ub: "unbind (Some ?E) = Inr (take n ?E, take n (drop n ?E), drop (2 * n) ?E)"
    by (rule unbind_wellformed[OF assms(2) assms(3) assms(4)])
  have cs: "compute_similarities (take n ?E) (take n (drop n ?E)) (drop (2 * n) ?E) =
     Inr (map2 dot (take n ?E) (take n (drop n ?E)), map2 dot (take n ?E) (drop (2 * n) ?E),
          map2 dot (take n (drop n ?E)) (drop (2 * n) ?E))"
    by (rule compute_similarities_equal_shape[OF sh(1) sh(2) sh(3) sh(4)])
  obtain sa where sa: "choice_accuracy (map2 dot (take n ?E) (take n (drop n ?E)),
          map2 dot (take n ?E) (drop (2 * n) ?E),
          map2 dot (take n (drop n ?E)) (drop (2 * n) ?E)) = Inr sa"
    using choice_accuracy_returns[of "map2 dot (take n ?E) (take n (drop n ?E))"
        "map2 dot (take n ?E) (drop (2 * n) ?E)"
        "map2 dot (take n (drop n ?E)) (drop (2 * n) ?E)"] sh(1-3) by auto
  obtain ca where ca: "classification_accuracy (model self images) labels = Inr ca"
    using classification_accuracy_returns[OF assms(5) assms(6) assms(7)] by blast
  show ?thesis
    by (simp add: step_def forward_def assms(1) ub cs sa ca Let_def)
qed

lemma step_constant_losses:
  "step \<lparr>optim = ''Adam'', lr = 1 / 1000, lmbda = 1 / 1000, alpha = a,
          model = (\<lambda>b. b), hooked_module = Some (\<lambda>b. b),
          similarity_loss_fun = (\<lambda>dots. s), classification_loss_fun = (\<lambda>logits labels. c),
          model_parameters = [[[1]]]\<rparr>
        (([[1]], [[1]], [[1]]), ([[1, 0]], [0])) 0
     = Inr ((1 - a) * s + a * c, c, 1, s, Batched (Some 0))"
  by (simp add: step_def forward_def unbind_def compute_similarities_def mul_def broadcast2_def
      sum_dim1_def choice_accuracy_def stack_def accuracy'_def break_ties_def break_ties_pmf_def
      unique_count_def softmax_def np_mean_def classification_accuracy_def argmax_def)

text \<open>
  Claim C2. Whenever a step returns, its scalar loss is
  \<open>(1 - \<alpha>) * similarity_loss + \<alpha> * classification_loss\<close>, where the similarity loss is the
  triplet loss of this batch's similarities and the classification loss is the loss of this
  batch's logits and labels: both terms enter the one scalar, for every batch and batch
  index. The training step returns this scalar, and the validation and test steps report
  it as their loss. Lemma \<open>step_returns\<close> gives the batches on which the step returns.
\<close>

theorem step_loss_is_weighted_sum:
  assumes "step self ((things0, things1, things2), (images, labels)) batch_idx
             = Inr (loss, cl, ca, sl, sa)"
  shows "loss = (1 - alpha self) * sl + alpha self * cl
       \<and> (\<exists>anchor positive negative dots.
             unbind (fst (forward self (things0 @ things1 @ things2) images))
               = Inr (anchor, positive, negative)
           \<and> compute_similarities anchor positive negative = Inr dots
           \<and> sl = similarity_loss_fun self dots)
       \<and> cl = classification_loss_fun self
                (snd (forward self (things0 @ things1 @ things2) images)) labels
       \<and> training_step self ((things0, things1, things2), (images, labels)) batch_idx = Inr loss
       \<and> (\<exists>ms. validation_step self ((things0, things1, things2), (images, labels)) batch_idx
                  = Inr ms \<and> map_of ms ''val_loss'' = Some (Scalar loss))
       \<and> (\<exists>ms. test_step self ((things0, things1, things2), (images, labels)) batch_idx
                  = Inr ms \<and> map_of ms ''test_loss'' = Some (Scalar loss))"
proof -
  from step_Inr_parts[OF assms] obtain anchor positive negative dots where
    p: "unbind (fst (forward self (things0 @ things1 @ things2) images))
             = Inr (anchor, positive, negative)"
       "compute_similarities anchor positive negative = Inr dots"
       "sl = similarity_loss_fun self dots"
       "cl = classification_loss_fun self (snd (forward self (things0 @ things1 @ things2) images)) labels"
    by blast
  have "training_step self ((things0, things1, things2), (images, labels)) batch_idx = Inr loss"
    by (simp add: training_step_def assms)
  moreover have "\<exists>ms. validation_step self ((things0, things1, things2), (images, labels)) batch_idx
                  = Inr ms \<and> map_of ms ''val_loss'' = Some (Scalar loss)"
    by (simp add: validation_step_def assms)
  moreover have "\<exists>ms. test_step self ((things0, things1, things2), (images, labels)) batch_idx
                  = Inr ms \<and> map_of ms ''test_loss'' = Some (Scalar loss)"
    by (simp add: test_step_def assms)
  ultimately show ?thesis using step_Inr_loss[OF assms] p by blast
qed

theorem step_loss_is_weighted_sum_witness:
  "step \<lparr>optim = ''Adam'', lr = 1 / 1000, lmbda = 1 / 1000, alpha = 1 / 10,
          model = (\<lambda>b. b), hooked_module = Some (\<lambda>b. b),
          similarity_loss_fun = (\<lambda>dots. 1), classification_loss_fun = (\<lambda>logits labels. 2),
          model_parameters = [[[1]]]\<rparr>
        (([[1]], [[1]], [[1]]), ([[1, 0]], [0])) 0
     = Inr (11 / 10, 2, 1, 1, Batched (Some 0))
   \<and> (11 / 10 :: real) = (1 - 1 / 10) * 1 + 1 / 10 * 2
   \<and> training_step \<lparr>optim = ''Adam'', lr = 1 / 1000, lmbda = 1 / 1000, alpha = 1 / 10,
          model = (\<lambda>b. b), hooked_module = Some (\<lambda>b. b),
          similarity_loss_fun = (\<lambda>dots. 1), classification_loss_fun = (\<lambda>logits labels. 2),
          model_parameters = [[[1]]]\<rparr>
        (([[1]], [[1]], [[1]]), ([[1, 0]], [0])) 0 = Inr (11 / 10)"
proof -
  have ev: "step \<lparr>optim = ''Adam'', lr = 1 / 1000, lmbda = 1 / 1000, alpha = 1 / 10,
          model = (\<lambda>b. b), hooked_module = Some (\<lambda>b. b),
          similarity_loss_fun = (\<lambda>dots. 1), classification_loss_fun = (\<lambda>logits labels. 2),
          model_parameters = [[[1]]]\<rparr>
        (([[1]], [[1]], [[1]]), ([[1, 0]], [0])) 0
     = Inr (11 / 10, 2, 1, 1, Batched (Some 0))"
    using step_constant_losses[of "1 / 10" 1 2] by simp
  show ?thesis using step_loss_is_weighted_sum[OF ev] ev by simp
qed

text \<open>
  Claim C1 reads: at \<open>\<alpha> = 0\<close> the combined loss is the classification loss, at \<open>\<alpha> = 1\<close>
  the similarity loss. The step weights the similarity loss by \<open>1 - \<alpha>\<close> and the
  classification loss by \<open>\<alpha>\<close>; with similarity loss 1 and classification loss 2 the
  combined loss is 1 at \<open>\<alpha> = 0\<close> and 2 at \<open>\<alpha> = 1\<close>.
\<close>

theorem step_loss_alpha_endpoints_counterexample:
  "step \<lparr>optim = ''Adam'', lr = 1 / 1000, lmbda = 1 / 1000, alpha = 0,
          model = (\<lambda>b. b), hooked_module = Some (\<lambda>b. b),
          similarity_loss_fun = (\<lambda>dots. 1), classification_loss_fun = (\<lambda>logits labels. 2),
          model_parameters = [[[1]]]\<rparr>
        (([[1]], [[1]], [[1]]), ([[1, 0]], [0])) 0
     = Inr (1, 2, 1, 1, Batched (Some 0))
   \<and> step \<lparr>optim = ''Adam'', lr = 1 / 1000, lmbda = 1 / 1000, alpha = 1,
          model = (\<lambda>b. b), hooked_module = Some (\<lambda>b. b),
          similarity_loss_fun = (\<lambda>dots. 1), classification_loss_fun = (\<lambda>logits labels. 2),
          model_parameters = [[[1]]]\<rparr>
        (([[1]], [[1]], [[1]]), ([[1, 0]], [0])) 0
     = Inr (2, 2, 1, 1, Batched (Some 0))
   \<and> (1 :: real) \<noteq> 2"
  using step_constant_losses[of 0 1 2] step_constant_losses[of 1 1 2] by simp

text \<open>
  Claim C1, amended. Whenever a step returns: at \<open>\<alpha> = 0\<close> the combined loss is the
  similarity loss, whatever the classification loss; at \<open>\<alpha> = 1\<close> it is the
  classification loss, whatever the similarity loss.
\<close>

theorem step_loss_alpha_endpoints:
  assumes "step self batch batch_idx = Inr (loss, cl, ca, sl, sa)"
  shows "(alpha self = 0 \<longrightarrow> loss = sl) \<and> (alpha self = 1 \<longrightarrow> loss = cl)"
  using step_Inr_loss[OF assms] by simp

theorem step_loss_alpha_endpoints_witness:
  "step \<lparr>optim = ''SGD'', lr = 1 / 100, lmbda = 1 / 10, alpha = 0,
          model = (\<lambda>b. b), hooked_module = Some (\<lambda>b. b),
          similarity_loss_fun = (\<lambda>dots. 3), classification_loss_fun = (\<lambda>logits labels. 5),
          model_parameters = [[[1]]]\<rparr>
        (([[1]], [[1]], [[1]]), ([[1, 0]], [0])) 0
     = Inr (3, 5, 1, 3, Batched (Some 0))
   \<and> step \<lparr>optim = ''SGD'', lr = 1 / 100, lmbda = 1 / 10, alpha = 1,
          model = (\<lambda>b. b), hooked_module = Some (\<lambda>b. b),
          similarity_loss_fun = (\<lambda>dots. 3), classification_loss_fun = (\<lambda>logits labels. 5),
          model_parameters = [[[1]]]\<rparr>
        (([[1]], [[1]], [[1]]), ([[1, 0]], [0])) 0
     = Inr (5, 5, 1, 3, Batched (Some 0))"
proof -
  have e0: "step \<lparr>optim = ''SGD'', lr = 1 / 100, lmbda = 1 / 10, alpha = 0,
          model = (\<lambda>b. b), hooked_module = Some (\<lambda>b. b),
          similarity_loss_fun = (\<lambda>dots. 3), classification_loss_fun = (\<lambda>logits labels. 5),
          model_parameters = [[[1]]]\<rparr>
        (([[1]], [[1]], [[1]]), ([[1, 0]], [0])) 0
     = Inr (3, 5, 1, 3, Batched (Some 0))"
    by (simp add: step_def forward_def unbind_def compute_similarities_def mul_def broadcast2_def
      sum_dim1_def choice_accuracy_def stack_def accuracy'_def break_ties_def break_ties_pmf_def
      unique_count_def softmax_def np_mean_def classification_accuracy_def argmax_def)
  have e1: "step \<lparr>optim = ''SGD'', lr = 1 / 100, lmbda = 1 / 10, alpha = 1,
          model = (\<lambda>b. b), hooked_module = Some (\<lambda>b. b),
          similarity_loss_fun = (\<lambda>dots. 3), classification_loss_fun = (\<lambda>logits labels. 5),
          model_parameters = [[[1]]]\<rparr>
        (([[1]], [[1]], [[1]]), ([[1, 0]], [0])) 0
     = Inr (5, 5, 1, 3, Batched (Some 0))"
    by (simp add: step_def forward_def unbind_def compute_similarities_def mul_def broadcast2_def
      sum_dim1_def choice_accuracy_def stack_def accuracy'_def break_ties_def break_ties_pmf_def
      unique_count_def softmax_def np_mean_def classification_accuracy_def argmax_def)
  show ?thesis
    using step_loss_alpha_endpoints[OF e0] step_loss_alpha_endpoints[OF e1] e0 e1 by simp
qed

subsection \<open>Prediction\<close>

lemma argmax_first_map:
  assumes "\<And>x y. (f x \<le> f y) = (x \<le> y)"
  shows "argmax_first (map f xs) = argmax_first xs"
  by (induction xs) (simp_all add: list_all_iff assms)

lemma sum_list_exp_pos: "xs \<noteq> [] \<Longrightarrow> 0 < sum_list (map exp (xs :: real list))"
proof (cases xs)
  case Nil
  then show "xs \<noteq> [] \<Longrightarrow> ?thesis" by simp
next
  case (Cons x ys)
  have "0 \<le> sum_list (map exp ys)" by (rule sum_list_nonneg) auto
  moreover have "0 < exp x" by simp
  ultimately show ?thesis using Cons by (simp add: add_pos_nonneg)
qed

lemma argmax_first_softmax: "argmax_first (softmax xs) = argmax_first xs"
proof (cases "xs = []")
  case True
  then show ?thesis by (simp add: softmax_def)
next
  case False
  then have "0 < sum_list (map exp xs)" by (rule sum_list_exp_pos)
  then have "\<And>x y. (exp x / sum_list (map exp xs) \<le> exp y / sum_list (map exp xs)) = (x \<le> y)"
    by (simp add: divide_le_cancel)
  then show ?thesis unfolding softmax_def by (rule argmax_first_map)
qed

lemma convert_one:
  "p < 3 \<Longrightarrow>
   (if (if int p \<noteq> 1 then int p - 2 else int p) < 0 then 2
    else (if int p \<noteq> 1 then int p - 2 else int p)) = 2 - int p"
  by (auto simp: less_Suc_eq numeral_3_eq_3)

lemma convert_predictions_argmax:
  assumes "\<And>r. r \<in> set rows \<Longrightarrow> length r = 3"
  shows "convert_predictions (map (\<lambda>r. int (argmax_first r)) rows)
           = map (\<lambda>r. 2 - int (argmax_first r)) rows"
proof -
  have lt: "argmax_first r < 3" if "r \<in> set rows" for r
  proof -
    have "length r = 3" by (rule assms[OF that])
    moreover from this have "r \<noteq> []" by auto
    ultimately show ?thesis using argmax_first_less[of r] by simp
  qed
  have "convert_predictions (map (\<lambda>r. int (argmax_first r)) rows)
      = map (\<lambda>r. if (if int (argmax_first r) \<noteq> 1 then int (argmax_first r) - 2
                       else int (argmax_first r)) < 0 then 2
                  else (if int (argmax_first r) \<noteq> 1 then int (argmax_first r) - 2
                        else int (argmax_first r))) rows"
    by (simp add: convert_predictions_def Let_def comp_def)
  also have "\<dots> = map (\<lambda>r. 2 - int (argmax_first r)) rows"
    by (rule map_cong[OF refl]) (rule convert_one[OF lt])
  finally show ?thesis .
qed

lemma predict_step_wellformed:
  assumes "hooked_module self = Some h" "length (h (things0 @ things1 @ things2)) = 3 * n"
    and "\<And>r. r \<in> set (h (things0 @ things1 @ things2)) \<Longrightarrow> length r = d" "0 < d"
  shows "predict_step self ((things0, things1, things2), (images, labels)) batch_idx
           = (let E = h (things0 @ things1 @ things2);
                  stacked = map (\<lambda>(a, b, c). [a, b, c])
                     (zip (map2 dot (take n E) (take n (drop n E)))
                       (zip (map2 dot (take n E) (drop (2 * n) E))
                            (map2 dot (take n (drop n E)) (drop (2 * n) E))))
              in Inr (map (\<lambda>r. 2 - int (argmax_first r)) stacked))"
proof -
  let ?E = "h (things0 @ things1 @ things2)"
  let ?st = "map (\<lambda>(a, b, c). [a, b, c])
                     (zip (map2 dot (take n ?E) (take n (drop n ?E)))
                       (zip (map2 dot (take n ?E) (drop (2 * n) ?E))
                            (map2 dot (take n (drop n ?E)) (drop (2 * n) ?E))))"
  note sh = thirds_shape[OF assms(2) assms(3)]
  have ub: "unbind (Some ?E) = Inr (take n ?E, take n (drop n ?E), drop (2 * n) ?E)"
    by (rule unbind_wellformed[OF assms(2) assms(3) assms(4)])
  have cs: "compute_similarities (take n ?E) (take n (drop n ?E)) (drop (2 * n) ?E) =
     Inr (map2 dot (take n ?E) (take n (drop n ?E)), map2 dot (take n ?E) (drop (2 * n) ?E),
          map2 dot (take n (drop n ?E)) (drop (2 * n) ?E))"
    by (rule compute_similarities_equal_shape[OF sh(1) sh(2) sh(3) sh(4)])
  have st: "stack (map2 dot (take n ?E) (take n (drop n ?E)), map2 dot (take n ?E) (drop (2 * n) ?E),
          map2 dot (take n (drop n ?E)) (drop (2 * n) ?E)) = Inr ?st"
    using sh(1-3) by (intro stack_equal) simp_all
  have rows3: "length r = 3" if "r \<in> set ?st" for r
    using that by auto
  have sq: "sequence (map argmax (map softmax ?st)) = Inr (map (\<lambda>r. int (argmax_first r)) ?st)"
  proof -
    have "map argmax (map softmax ?st) = map (\<lambda>r. argmax (softmax r)) ?st"
      by (simp only: map_map comp_def)
    moreover have "sequence (map (\<lambda>r. argmax (softmax r)) ?st)
        = Inr (map (\<lambda>r. int (argmax_first r)) ?st)"
    proof (rule sequence_map_Inr)
      fix r assume "r \<in> set ?st"
      then have "length r = 3" by (rule rows3)
      then have "softmax r \<noteq> []" using softmax_length[of r] by auto
      then show "argmax (softmax r) = Inr (int (argmax_first r))"
        by (simp add: argmax_def argmax_first_softmax)
    qed
    ultimately show ?thesis by (simp only:)
  qed
  have cv: "convert_predictions (map (\<lambda>r. int (argmax_first r)) ?st)
           = map (\<lambda>r. 2 - int (argmax_first r)) ?st"
    by (rule convert_predictions_argmax) (rule rows3)
  show ?thesis
    unfolding predict_step_def forward_def Let_def
    by (simp only: prod.case assms(1) option.map ub cs st sq cv sum.case)
qed

lemma stacked_rows_nth:
  "i < length a \<Longrightarrow> length a = length b \<Longrightarrow> length b = length c \<Longrightarrow>
   map (\<lambda>(x, y, z). [x, y, z]) (zip a (zip b c)) ! i = [a ! i, b ! i, c ! i]"
  by simp

lemma map2_dot_nth:
  "i < length A \<Longrightarrow> length A = length B \<Longrightarrow> map2 dot A B ! i = dot (A ! i) (B ! i)"
  by simp

lemma thirds_nth:
  assumes "length E = 3 * n" "i < n"
  shows "take n E ! i = E ! i" "take n (drop n E) ! i = E ! (n + i)"
    "drop (2 * n) E ! i = E ! (2 * n + i)"
  using assms by simp_all

text \<open>
  Claim C5 reads: in the predict step an example for which the tie-break condition fires is
  emitted as the sentinel. \<^verbatim>\<open>predict_step\<close> does not call \<^verbatim>\<open>break_ties\<close>: for three
  equal embeddings the similarities are all 1, \<^verbatim>\<open>break_ties\<close> gives \<open>-1\<close> on their softmax,
  and the predict step emits the choice 2.
\<close>

theorem predict_step_plain_argmax_counterexample:
  "predict_step \<lparr>optim = ''Adam'', lr = 1 / 1000, lmbda = 1 / 1000, alpha = 1 / 10,
          model = (\<lambda>b. b), hooked_module = Some (\<lambda>b. b),
          similarity_loss_fun = (\<lambda>dots. 1), classification_loss_fun = (\<lambda>logits labels. 2),
          model_parameters = [[[1]]]\<rparr>
        (([[1]], [[1]], [[1]]), ([[1, 0]], [0])) 0 = Inr [2]
   \<and> compute_similarities [[1]] [[1]] [[1]] = Inr ([1], [1], [1])
   \<and> break_ties [softmax [1, 1, 1]] = Inr [- 1]"
  by (simp add: predict_step_def forward_def unbind_def compute_similarities_def mul_def
      broadcast2_def sum_dim1_def stack_def break_ties_def break_ties_pmf_def
      unique_count_def softmax_def argmax_def convert_predictions_def)

text \<open>
  Claim C5, amended. For every batch of the predict step whose embeddings form \<open>3 * n\<close>
  rows of one positive width, the step returns \<open>n\<close> choices and never raises; each choice
  is \<open>2 - p\<close>, where \<open>p\<close> is the first arg-max index over the three similarities of the
  example, so it is one of 0, 1, 2, also when the tie-break condition holds: the sentinel is
  never emitted on this path.
\<close>

theorem predict_step_plain_argmax:
  assumes "hooked_module self = Some h" "h (things0 @ things1 @ things2) = E"
    and "length E = 3 * n" "\<forall>r \<in> set E. length r = d" "0 < d"
  shows "\<exists>preds.
           predict_step self ((things0, things1, things2), (images, labels)) batch_idx = Inr preds
         \<and> length preds = n
         \<and> (\<forall>i < n. preds ! i \<in> {0, 1, 2}
                \<and> preds ! i = 2 - int (argmax_first
                      [dot (E ! i) (E ! (n + i)), dot (E ! i) (E ! (2 * n + i)),
                       dot (E ! (n + i)) (E ! (2 * n + i))]))"
proof -
  define sim_i where "sim_i = map2 dot (take n E) (take n (drop n E))"
  define sim_j where "sim_j = map2 dot (take n E) (drop (2 * n) E)"
  define sim_k where "sim_k = map2 dot (take n (drop n E)) (drop (2 * n) E)"
  define st where "st = map (\<lambda>(a, b, c). [a, b, c]) (zip sim_i (zip sim_j sim_k))"
  define preds where "preds = map (\<lambda>r. 2 - int (argmax_first r)) st"
  have rows: "\<And>r. r \<in> set (h (things0 @ things1 @ things2)) \<Longrightarrow> length r = d"
    using assms(2,4) by blast
  have len: "length (h (things0 @ things1 @ things2)) = 3 * n" using assms(2,3) by simp
  have ps: "predict_step self ((things0, things1, things2), (images, labels)) batch_idx
      = Inr preds"
    using predict_step_wellformed[OF assms(1) len rows assms(5)]
    unfolding preds_def st_def sim_i_def sim_j_def sim_k_def
    by (simp only: Let_def assms(2))
  have l: "length sim_i = n" "length sim_j = n" "length sim_k = n"
    unfolding sim_i_def sim_j_def sim_k_def using assms(3) by simp_all
  have ln: "length st = n" unfolding st_def using l by simp
  have lp: "length preds = n" unfolding preds_def using ln by simp
  have nth: "st ! i = [dot (E ! i) (E ! (n + i)), dot (E ! i) (E ! (2 * n + i)),
                       dot (E ! (n + i)) (E ! (2 * n + i))]" if i: "i < n" for i
  proof -
    have "st ! i = [sim_i ! i, sim_j ! i, sim_k ! i]"
      unfolding st_def using l i by (intro stacked_rows_nth) simp_all
    moreover have "sim_i ! i = dot (E ! i) (E ! (n + i))"
    proof -
      have "sim_i ! i = dot (take n E ! i) (take n (drop n E) ! i)"
        unfolding sim_i_def by (rule map2_dot_nth) (use assms(3) i in simp_all)
      then show ?thesis by (simp only: thirds_nth[OF assms(3) i])
    qed
    moreover have "sim_j ! i = dot (E ! i) (E ! (2 * n + i))"
    proof -
      have "sim_j ! i = dot (take n E ! i) (drop (2 * n) E ! i)"
        unfolding sim_j_def by (rule map2_dot_nth) (use assms(3) i in simp_all)
      then show ?thesis by (simp only: thirds_nth[OF assms(3) i])
    qed
    moreover have "sim_k ! i = dot (E ! (n + i)) (E ! (2 * n + i))"
    proof -
      have "sim_k ! i = dot (take n (drop n E) ! i) (drop (2 * n) E ! i)"
        unfolding sim_k_def by (rule map2_dot_nth) (use assms(3) i in simp_all)
      then show ?thesis by (simp only: thirds_nth[OF assms(3) i])
    qed
    ultimately show ?thesis by (simp only:)
  qed
  have pn: "preds ! i = 2 - int (argmax_first (st ! i))" if "i < n" for i
    unfolding preds_def using that ln by (simp only: nth_map)
  have rng: "preds ! i \<in> {0, 1, 2}" if i: "i < n" for i
  proof -
    have "length (st ! i) = 3" by (simp only: nth[OF i]) simp
    then have "st ! i \<noteq> []" by auto
    then have "argmax_first (st ! i) < length (st ! i)" by (rule argmax_first_less)
    then have "argmax_first (st ! i) < 3" using \<open>length (st ! i) = 3\<close> by simp
    then show ?thesis unfolding pn[OF i] by auto
  qed
  have all: "\<forall>i < n. preds ! i \<in> {0, 1, 2}
                \<and> preds ! i = 2 - int (argmax_first
                      [dot (E ! i) (E ! (n + i)), dot (E ! i) (E ! (2 * n + i)),
                       dot (E ! (n + i)) (E ! (2 * n + i))])"
  proof (intro allI impI conjI)
    fix i assume i: "i < n"
    show "preds ! i \<in> {0, 1, 2}" by (rule rng[OF i])
    show "preds ! i = 2 - int (argmax_first
                      [dot (E ! i) (E ! (n + i)), dot (E ! i) (E ! (2 * n + i)),
                       dot (E ! (n + i)) (E ! (2 * n + i))])"
      by (simp only: pn[OF i] nth[OF i])
  qed
  from ps lp all show ?thesis by blast
qed

theorem predict_step_plain_argmax_witness:
  "hooked_module \<lparr>optim = ''Adam'', lr = 1 / 1000, lmbda = 1 / 1000, alpha = 1 / 10,
          model = (\<lambda>b. b), hooked_module = Some (\<lambda>b. b),
          similarity_loss_fun = (\<lambda>dots. 1), classification_loss_fun = (\<lambda>logits labels. 2),
          model_parameters = [[[1]]]\<rparr>
     = Some (\<lambda>b. b)
   \<and> length [[1, 0], [1, 1], [0, 1], [1, 1], [1, 0], [1, 1 :: real]] = 3 * 2
   \<and> list_all (\<lambda>r. length r = 2) [[1, 0], [1, 1], [0, 1], [1, 1], [1, 0], [1, 1 :: real]]
   \<and> (0 :: nat) < 2
   \<and> predict_step \<lparr>optim = ''Adam'', lr = 1 / 1000, lmbda = 1 / 1000, alpha = 1 / 10,
          model = (\<lambda>b. b), hooked_module = Some (\<lambda>b. b),
          similarity_loss_fun = (\<lambda>dots. 1), classification_loss_fun = (\<lambda>logits labels. 2),
          model_parameters = [[[1]]]\<rparr>
        (([[1, 0], [1, 1]], [[0, 1], [1, 1]], [[1, 0], [1, 1]]), ([[1, 0]], [0])) 0 = Inr [1, 2]"
proof -
  let ?P = "\<lparr>optim = ''Adam'', lr = 1 / 1000, lmbda = 1 / 1000, alpha = 1 / 10,
          model = (\<lambda>b. b), hooked_module = Some (\<lambda>b :: real list list. b),
          similarity_loss_fun = (\<lambda>dots. 1), classification_loss_fun = (\<lambda>logits labels. 2),
          model_parameters = [[[1]]]\<rparr>"
  let ?E = "[[1, 0], [1, 1], [0, 1], [1, 1], [1, 0], [1, 1 :: real]]"
  have h: "hooked_module ?P = Some (\<lambda>b. b)"
    "(\<lambda>b. b) ([[1, 0], [1, 1]] @ [[0, 1], [1, 1]] @ [[1, 0], [1, 1 :: real]]) = ?E"
    "length ?E = 3 * 2" "\<forall>r \<in> set ?E. length r = 2" "(0 :: nat) < 2"
    by simp_all
  from predict_step_plain_argmax[OF h, of "[[1, 0]]" "[0]" 0]
  obtain preds where p:
    "predict_step ?P (([[1, 0], [1, 1]], [[0, 1], [1, 1]], [[1, 0], [1, 1]]), ([[1, 0]], [0])) 0
       = Inr preds"
    "length preds = 2"
    "\<forall>i < 2. preds ! i = 2 - int (argmax_first
                      [dot (?E ! i) (?E ! (2 + i)), dot (?E ! i) (?E ! (2 * 2 + i)),
                       dot (?E ! (2 + i)) (?E ! (2 * 2 + i))])"
    by blast
  have d: "dot [1, 0] [0, 1] = 0" "dot [1, 0] [1, 0] = 1" "dot [0, 1] [1, 0] = 0"
    "dot [1, 1] [1, 1] = 2"
    by (simp_all add: dot_def lessThan_Suc)
  from p(3) have "preds ! 0 = 2 - int (argmax_first
                      [dot (?E ! 0) (?E ! (2 + 0)), dot (?E ! 0) (?E ! (2 * 2 + 0)),
                       dot (?E ! (2 + 0)) (?E ! (2 * 2 + 0))])"
    by (meson pos2)
  then have p0: "preds ! 0 = 1" by (simp add: d)
  from p(3) have "preds ! 1 = 2 - int (argmax_first
                      [dot (?E ! 1) (?E ! (2 + 1)), dot (?E ! 1) (?E ! (2 * 2 + 1)),
                       dot (?E ! (2 + 1)) (?E ! (2 * 2 + 1))])"
    by (meson one_less_numeral_iff semiring_norm(76))
  then have p1: "preds ! 1 = 2" by (simp add: d numeral_3_eq_3 eval_nat_numeral)
  from p(2) obtain x y where xy: "preds = [x, y]"
    by (auto simp: length_Suc_conv numeral_2_eq_2)
  with p0 p1 have "preds = [1, 2]" by simp
  moreover have "list_all (\<lambda>r. length r = 2)
      [[1, 0], [1, 1], [0, 1], [1, 1], [1, 0], [1, 1 :: real]]" by simp
  ultimately show ?thesis using p(1) h(1,3,5) by (simp only: simp_thms)
qed

subsection \<open>Feature normalisation\<close>

lemma mean_all_map:
  "mean_all (map (map f) F) = sum_list (map f (concat F)) / real (length (concat F))"
  by (simp add: mean_all_def map_concat[symmetric])

lemma sum_list_pos_ex:
  fixes ys :: "real list"
  assumes "\<And>y. y \<in> set ys \<Longrightarrow> 0 \<le> y" "y \<in> set ys" "0 < y"
  shows "0 < sum_list ys"
  using assms
proof (induction ys)
  case Nil
  then show ?case by simp
next
  case (Cons a ys)
  have nn: "0 \<le> sum_list ys" by (rule sum_list_nonneg) (simp add: Cons.prems(1))
  have a0: "0 \<le> a" by (simp add: Cons.prems(1))
  show ?case
  proof (cases "y = a")
    case True
    then show ?thesis using nn Cons.prems(3) by simp
  next
    case False
    then have "y \<in> set ys" using Cons.prems(2) by simp
    then have "0 < sum_list ys" using Cons.IH Cons.prems by simp
    then show ?thesis using a0 by simp
  qed
qed

lemma sum_list_shift_scale:
  fixes xs :: "real list"
  shows "sum_list (map (\<lambda>x. (x - m) / s) xs) = (sum_list xs - real (length xs) * m) / s"
proof (induction xs)
  case Nil
  then show ?case by simp
next
  case (Cons a xs)
  have "(a - m) / s + (sum_list xs - real (length xs) * m) / s
      = ((a - m) + (sum_list xs - real (length xs) * m)) / s"
    by (simp add: add_divide_distrib)
  also have "\<dots> = (sum_list (a # xs) - real (length (a # xs)) * m) / s"
    by (simp add: algebra_simps)
  finally show ?case using Cons.IH by simp
qed

lemma sum_list_sq_scale:
  fixes xs :: "real list"
  shows "sum_list (map (\<lambda>x. ((x - m) / s) ^ 2) xs) = sum_list (map (\<lambda>x. (x - m) ^ 2) xs) / s ^ 2"
proof (induction xs)
  case Nil
  then show ?case by simp
next
  case (Cons a xs)
  have "((a - m) / s) ^ 2 + sum_list (map (\<lambda>x. (x - m) ^ 2) xs) / s ^ 2
      = ((a - m) ^ 2 + sum_list (map (\<lambda>x. (x - m) ^ 2) xs)) / s ^ 2"
    by (simp add: add_divide_distrib power_divide)
  then show ?case using Cons.IH by simp
qed

lemma variance_pos:
  fixes xs :: "real list"
  assumes "x \<in> set xs" "y \<in> set xs" "x \<noteq> y"
  shows "0 < sum_list (map (\<lambda>x. (x - m) ^ 2) xs) / real (length xs)"
proof -
  obtain z where z: "z \<in> set xs" "z \<noteq> m" using assms by metis
  have "0 < (z - m) ^ 2" using z(2) by simp
  moreover have "(z - m) ^ 2 \<in> set (map (\<lambda>x. (x - m) ^ 2) xs)" using z(1) by auto
  moreover have "\<And>y. y \<in> set (map (\<lambda>x. (x - m) ^ 2) xs) \<Longrightarrow> 0 \<le> y" by auto
  ultimately have "0 < sum_list (map (\<lambda>x. (x - m) ^ 2) xs)"
    using sum_list_pos_ex[of "map (\<lambda>x. (x - m) ^ 2) xs" "(z - m) ^ 2"] by blast
  moreover have "0 < real (length xs)" using assms(1) by (cases xs) auto
  ultimately show ?thesis by simp
qed

lemma std_all_concat:
  "std_all F = sqrt (sum_list (map (\<lambda>x. (x - mean_all F) ^ 2) (concat F))
                      / real (length (concat F)))"
  by (simp add: std_all_def mean_all_map)

lemma normalized_mean_std:
  fixes F :: mat
  assumes "x \<in> set (concat F)" "y \<in> set (concat F)" "x \<noteq> y"
  defines "N \<equiv> map (map (\<lambda>x. (x - mean_all F) / std_all F)) F"
  shows "0 < std_all F" "mean_all N = 0" "std_all N = 1"
proof -
  define xs where "xs = concat F"
  define n where "n = real (length xs)"
  define mu where "mu = mean_all F"
  define sg where "sg = std_all F"
  define v where "v = sum_list (map (\<lambda>x. (x - mu) ^ 2) xs) / n"
  have npos: "0 < n" unfolding n_def xs_def using assms(1) by (cases "concat F") auto
  have vpos: "0 < v" unfolding v_def n_def xs_def by (rule variance_pos[OF assms(1-3)])
  have sd: "sg = sqrt v" unfolding sg_def v_def n_def xs_def mu_def by (rule std_all_concat)
  then have spos: "0 < sg" using vpos by simp
  then show "0 < std_all F" by (simp only: sg_def)
  have sq: "sg ^ 2 = v" using vpos by (simp add: sd)
  have mu: "mu = sum_list xs / n" unfolding mu_def n_def xs_def by (rule mean_all_def)
  have "sum_list xs - n * mu = 0" using npos by (simp add: mu)
  then have s0: "sum_list (map (\<lambda>x. (x - mu) / sg) xs) = 0"
    unfolding n_def by (simp only: sum_list_shift_scale div_0)
  have cN: "concat N = map (\<lambda>x. (x - mu) / sg) xs"
    unfolding N_def xs_def mu_def sg_def by (simp only: map_concat)
  have lN: "real (length (concat N)) = n" unfolding n_def by (simp only: cN length_map)
  have "mean_all N = sum_list (concat N) / real (length (concat N))" by (rule mean_all_def)
  also have "\<dots> = 0" by (simp only: cN s0 div_0)
  finally show m0: "mean_all N = 0" .
  have "std_all N = sqrt (sum_list (map (\<lambda>x. (x - mean_all N) ^ 2) (concat N))
                      / real (length (concat N)))"
    by (rule std_all_concat)
  also have "sum_list (map (\<lambda>x. (x - mean_all N) ^ 2) (concat N))
      = sum_list (map (\<lambda>x. ((x - mu) / sg) ^ 2) xs)"
    by (simp only: m0 cN map_map comp_def diff_zero)
  also have "\<dots> = sum_list (map (\<lambda>x. (x - mu) ^ 2) xs) / sg ^ 2"
    by (rule sum_list_sq_scale)
  also have "\<dots> / real (length (concat N)) = v / sg ^ 2"
    unfolding v_def lN by simp
  also have "\<dots> = 1" using vpos by (simp add: sq)
  finally show "std_all N = 1" by simp
qed

subsection \<open>Optimizer configuration\<close>

lemma lower_char_eq_lower:
  assumes "lower_char c = d" "97 \<le> (of_char d :: nat)" "(of_char d :: nat) \<le> 122"
  shows "upper_char c = char_of (of_char d - (32 :: nat))"
proof (cases "65 \<le> (of_char c :: nat) \<and> (of_char c :: nat) \<le> 90")
  case True
  then have d: "d = char_of (of_char c + (32 :: nat))"
    using assms(1) unfolding lower_char_def Let_def by simp
  have "(of_char d :: nat) = of_char c + 32" using True by (simp add: d)
  then show ?thesis using True by (simp add: upper_char_def Let_def)
next
  case False
  then have "d = c" using assms(1) unfolding lower_char_def Let_def by (simp split: if_splits)
  then show ?thesis using assms(2,3) by (simp add: upper_char_def Let_def)
qed

lemma char_of_values:
  "char_of (65 :: nat) = CHR ''A''" "char_of (83 :: nat) = CHR ''S''"
  "char_of (71 :: nat) = CHR ''G''" "char_of (68 :: nat) = CHR ''D''"
  "char_of (97 :: nat) = CHR ''a''" "char_of (115 :: nat) = CHR ''s''"
  "char_of (103 :: nat) = CHR ''g''" "char_of (100 :: nat) = CHR ''d''"
  "char_of (109 :: nat) = CHR ''m''" "char_of (119 :: nat) = CHR ''w''"
  by code_simp+

lemma upper_of_lower:
  "lower_char c = CHR ''a'' \<Longrightarrow> upper_char c = CHR ''A''"
  "lower_char c = CHR ''s'' \<Longrightarrow> upper_char c = CHR ''S''"
  "lower_char c = CHR ''g'' \<Longrightarrow> upper_char c = CHR ''G''"
  "lower_char c = CHR ''d'' \<Longrightarrow> upper_char c = CHR ''D''"
  by (drule lower_char_eq_lower; simp add: char_of_values)+

lemma lower_adam_capitalize: "lower s = ''adam'' \<Longrightarrow> capitalize s = ''Adam''"
  by (auto simp: lower_def capitalize_def map_eq_Cons_conv upper_of_lower)

lemma lower_sgd_upper: "lower s = ''sgd'' \<Longrightarrow> upper s = ''SGD''"
  by (auto simp: lower_def upper_def map_eq_Cons_conv upper_of_lower)

lemma lower_examples:
  "lower ''Adam'' = ''adam''" "lower ''SGD'' = ''sgd''" "lower ''AdamW'' = ''adamw''"
  "lower ''adam'' = ''adam''" "lower ''sGd'' = ''sgd''"
  by (simp_all add: lower_def lower_char_def char_of_values)


lemma configure_optimizers_cases:
  "configure_optimizers self =
     (if lower (optim self) = ''adam''
      then torch_optimizer Adam (model_parameters self) (lr self) None (lmbda self)
      else if lower (optim self) = ''sgd''
      then torch_optimizer SGD (model_parameters self) (lr self) (Some (9 / 10)) (lmbda self)
      else Inl ValueError)"
  by (simp add: configure_optimizers_def lower_adam_capitalize lower_sgd_upper
      getattr_torch_optim_def)

text \<open>
  Claim C7 reads: configuration succeeds for each of Adam, AdamW and SGD, and raises exactly
  for the names outside this set. \<^verbatim>\<open>configure_optimizers\<close> compares the lower-cased name
  with \<^verbatim>\<open>"adam"\<close> and \<^verbatim>\<open>"sgd"\<close> only: \<^verbatim>\<open>AdamW\<close> raises, and \<^verbatim>\<open>adam\<close>, a name
  outside the set, succeeds. The constructor raises as well: \<^verbatim>\<open>Adam\<close> with the learning
  rate \<open>-0.001\<close> is a name of the set and raises.
\<close>

theorem configure_optimizers_adamw_counterexample:
  "configure_optimizers \<lparr>optim = ''AdamW'', lr = 1 / 1000, lmbda = 1 / 1000, alpha = 1 / 10,
          model = (\<lambda>b :: real list list. b), hooked_module = Some (\<lambda>b. b),
          similarity_loss_fun = (\<lambda>dots. 1), classification_loss_fun = (\<lambda>logits labels. 2),
          model_parameters = [[[1]]]\<rparr>
     = Inl ValueError
   \<and> configure_optimizers \<lparr>optim = ''adam'', lr = 1 / 1000, lmbda = 1 / 1000, alpha = 1 / 10,
          model = (\<lambda>b :: real list list. b), hooked_module = Some (\<lambda>b. b),
          similarity_loss_fun = (\<lambda>dots. 1), classification_loss_fun = (\<lambda>logits labels. 2),
          model_parameters = [[[1]]]\<rparr>
     = Inr \<lparr>opt_class = Adam, opt_params = [[[1]]], opt_lr = 1 / 1000, opt_momentum = None,
            opt_weight_decay = 1 / 1000\<rparr>
   \<and> configure_optimizers \<lparr>optim = ''Adam'', lr = - 1 / 1000, lmbda = 1 / 1000, alpha = 1 / 10,
          model = (\<lambda>b :: real list list. b), hooked_module = Some (\<lambda>b. b),
          similarity_loss_fun = (\<lambda>dots. 1), classification_loss_fun = (\<lambda>logits labels. 2),
          model_parameters = [[[1]]]\<rparr>
     = Inl ValueError"
  by (simp add: configure_optimizers_cases torch_optimizer_def lower_def lower_char_def
      char_of_values)

text \<open>
  Claim C7, amended. For every name whose lower-casing is \<^verbatim>\<open>adam\<close> (in particular
  \<^verbatim>\<open>Adam\<close>) or \<^verbatim>\<open>sgd\<close> (in particular \<^verbatim>\<open>SGD\<close>), with a learning rate and a weight
  decay that are not negative and a model that has parameters, configuration returns an
  Adam optimizer, respectively an SGD optimizer with momentum 0.9, over the model's
  parameters. A configuration error is raised if and only if the lower-cased name is
  neither \<^verbatim>\<open>adam\<close> nor \<^verbatim>\<open>sgd\<close>, or the learning rate or the weight decay is negative, or
  the model has no parameters; the error is \<^verbatim>\<open>ValueError\<close>.
\<close>

theorem configure_optimizers_by_lowercase_name:
  "((optim self = ''Adam'' \<or> lower (optim self) = ''adam'')
       \<and> 0 \<le> lr self \<and> 0 \<le> lmbda self \<and> model_parameters self \<noteq> [] \<longrightarrow>
      configure_optimizers self =
        Inr \<lparr>opt_class = Adam, opt_params = model_parameters self, opt_lr = lr self,
             opt_momentum = None, opt_weight_decay = lmbda self\<rparr>)
   \<and> ((optim self = ''SGD'' \<or> lower (optim self) = ''sgd'')
       \<and> 0 \<le> lr self \<and> 0 \<le> lmbda self \<and> model_parameters self \<noteq> [] \<longrightarrow>
      configure_optimizers self =
        Inr \<lparr>opt_class = SGD, opt_params = model_parameters self, opt_lr = lr self,
             opt_momentum = Some (9 / 10), opt_weight_decay = lmbda self\<rparr>)
   \<and> ((\<exists>e. configure_optimizers self = Inl e) =
        ((lower (optim self) \<noteq> ''adam'' \<and> lower (optim self) \<noteq> ''sgd'')
         \<or> lr self < 0 \<or> lmbda self < 0 \<or> model_parameters self = []))
   \<and> ((lower (optim self) \<noteq> ''adam'' \<and> lower (optim self) \<noteq> ''sgd'')
         \<or> lr self < 0 \<or> lmbda self < 0 \<or> model_parameters self = [] \<longrightarrow>
        configure_optimizers self = Inl ValueError)"
proof -
  have "lower (optim self) = ''adam''" if "optim self = ''Adam''"
    using that by (simp add: lower_examples)
  moreover have "lower (optim self) = ''sgd''" if "optim self = ''SGD''"
    using that by (simp add: lower_examples)
  ultimately show ?thesis
    by (auto simp: configure_optimizers_cases torch_optimizer_def)
qed

theorem configure_optimizers_by_lowercase_name_witness:
  "configure_optimizers \<lparr>optim = ''Adam'', lr = 1 / 1000, lmbda = 1 / 100, alpha = 1 / 10,
          model = (\<lambda>b :: real list list. b), hooked_module = Some (\<lambda>b. b),
          similarity_loss_fun = (\<lambda>dots. 1), classification_loss_fun = (\<lambda>logits labels. 2),
          model_parameters = [[[1]]]\<rparr>
     = Inr \<lparr>opt_class = Adam, opt_params = [[[1]]], opt_lr = 1 / 1000, opt_momentum = None,
            opt_weight_decay = 1 / 100\<rparr>
   \<and> configure_optimizers \<lparr>optim = ''SGD'', lr = 1 / 1000, lmbda = 1 / 100, alpha = 1 / 10,
          model = (\<lambda>b :: real list list. b), hooked_module = Some (\<lambda>b. b),
          similarity_loss_fun = (\<lambda>dots. 1), classification_loss_fun = (\<lambda>logits labels. 2),
          model_parameters = [[[1]]]\<rparr>
     = Inr \<lparr>opt_class = SGD, opt_params = [[[1]]], opt_lr = 1 / 1000, opt_momentum = Some (9 / 10),
            opt_weight_decay = 1 / 100\<rparr>
   \<and> lower ''RMSprop'' \<noteq> ''adam'' \<and> lower ''RMSprop'' \<noteq> ''sgd''
   \<and> configure_optimizers \<lparr>optim = ''RMSprop'', lr = 1 / 1000, lmbda = 1 / 100, alpha = 1 / 10,
          model = (\<lambda>b :: real list list. b), hooked_module = Some (\<lambda>b. b),
          similarity_loss_fun = (\<lambda>dots. 1), classification_loss_fun = (\<lambda>logits labels. 2),
          model_parameters = [[[1]]]\<rparr>
     = Inl ValueError
   \<and> configure_optimizers \<lparr>optim = ''SGD'', lr = 1 / 1000, lmbda = - 1 / 100, alpha = 1 / 10,
          model = (\<lambda>b :: real list list. b), hooked_module = Some (\<lambda>b. b),
          similarity_loss_fun = (\<lambda>dots. 1), classification_loss_fun = (\<lambda>logits labels. 2),
          model_parameters = [[[1]]]\<rparr>
     = Inl ValueError
   \<and> configure_optimizers \<lparr>optim = ''Adam'', lr = 1 / 1000, lmbda = 1 / 100, alpha = 1 / 10,
          model = (\<lambda>b :: real list list. b), hooked_module = Some (\<lambda>b. b),
          similarity_loss_fun = (\<lambda>dots. 1), classification_loss_fun = (\<lambda>logits labels. 2),
          model_parameters = []\<rparr>
     = Inl ValueError"
proof -
  have l: "lower ''RMSprop'' \<noteq> ''adam''" "lower ''RMSprop'' \<noteq> ''sgd''"
    by (simp_all add: lower_def)
  show ?thesis
    using l
      configure_optimizers_by_lowercase_name[of "\<lparr>optim = ''Adam'', lr = 1 / 1000, lmbda = 1 / 100, alpha = 1 / 10,
          model = (\<lambda>b :: real list list. b), hooked_module = Some (\<lambda>b. b),
          similarity_loss_fun = (\<lambda>dots. 1), classification_loss_fun = (\<lambda>logits labels. 2),
          model_parameters = [[[1]]]\<rparr>"]
      configure_optimizers_by_lowercase_name[of "\<lparr>optim = ''SGD'', lr = 1 / 1000, lmbda = 1 / 100, alpha = 1 / 10,
          model = (\<lambda>b :: real list list. b), hooked_module = Some (\<lambda>b. b),
          similarity_loss_fun = (\<lambda>dots. 1), classification_loss_fun = (\<lambda>logits labels. 2),
          model_parameters = [[[1]]]\<rparr>"]
      configure_optimizers_by_lowercase_name[of "\<lparr>optim = ''RMSprop'', lr = 1 / 1000, lmbda = 1 / 100, alpha = 1 / 10,
          model = (\<lambda>b :: real list list. b), hooked_module = Some (\<lambda>b. b),
          similarity_loss_fun = (\<lambda>dots. 1), classification_loss_fun = (\<lambda>logits labels. 2),
          model_parameters = [[[1]]]\<rparr>"]
      configure_optimizers_by_lowercase_name[of "\<lparr>optim = ''SGD'', lr = 1 / 1000, lmbda = - 1 / 100, alpha = 1 / 10,
          model = (\<lambda>b :: real list list. b), hooked_module = Some (\<lambda>b. b),
          similarity_loss_fun = (\<lambda>dots. 1), classification_loss_fun = (\<lambda>logits labels. 2),
          model_parameters = [[[1]]]\<rparr>"]
      configure_optimizers_by_lowercase_name[of "\<lparr>optim = ''Adam'', lr = 1 / 1000, lmbda = 1 / 100, alpha = 1 / 10,
          model = (\<lambda>b :: real list list. b), hooked_module = Some (\<lambda>b. b),
          similarity_loss_fun = (\<lambda>dots. 1), classification_loss_fun = (\<lambda>logits labels. 2),
          model_parameters = []\<rparr>"]
    by simp
qed

subsection \<open>The driver\<close>

text \<open>
  Claim C6 says that \<^verbatim>\<open>run\<close> builds the feature datasets for each of the formats
  \<^verbatim>\<open>hdf5\<close> and \<^verbatim>\<open>pt\<close>. The chain at the head of \<^verbatim>\<open>run\<close> compares the format with
  \<^verbatim>\<open>"hdf"\<close>: on \<^verbatim>\<open>hdf5\<close>, the default of the command line and the name in the error
  message, it takes the last branch and \<^verbatim>\<open>run\<close> raises \<^verbatim>\<open>ValueError\<close>, whatever its other
  arguments; the HDF5 datasets are built for \<^verbatim>\<open>hdf\<close> only.
\<close>

theorem run_hdf5_raises:
  "imagenet_features ''hdf5'' imagenet_features_root dev = Inl ValueError
   \<and> run env features imagenet_features_root data_root cfg n_objects dev rnd_seed
        num_processes ''hdf5'' = Inl ValueError
   \<and> imagenet_features ''hdf'' imagenet_features_root dev =
       Inr (\<lparr>backend = FeaturesHDF5, root = imagenet_features_root, split = ''train_set'',
             device = dev\<rparr>,
            \<lparr>backend = FeaturesHDF5, root = imagenet_features_root, split = ''val'',
             device = dev\<rparr>)"
  by (simp add: imagenet_features_def run_def)

lemma fold_key_1: "fold_key 1 = ''fold_01''"
  by code_simp

lemma fold_key_Suc_0: "fold_key (Suc 0) = ''fold_01''"
  using fold_key_1 by simp

lemma for_loop_fold_body:
  "for_loop (fold_body env inp objects) ((k, (train_idx, test_idx)) # rest) (cv, ooo, probe) =
     (if \<not> list_all (\<lambda>i. i < length objects) train_idx then Inl IndexError
      else let out = train_fold env (inp\<lparr>fi_train_objects := map (\<lambda>i. objects ! i) train_idx\<rparr>)
           in if predictions out = [] then Inl RuntimeError
              else Inr (cv(fold_key k \<mapsto> val_performance out),
                        ooo @ [concat (predictions out)], Some out))"
  by (simp add: fold_body_def Let_def)

lemma run_first_fold_only:
  "run env features imagenet_features_root data_root cfg n_objects dev rnd_seed num_processes
       features_type =
     (case imagenet_features features_type imagenet_features_root dev of
        Inl e \<Rightarrow> Inl e
      | Inr (imagenet_train_features, imagenet_val_features) \<Rightarrow>
          (case kf_split env rnd_seed [0..<nat n_objects] of
             Inl e \<Rightarrow> Inl e
           | Inr [] \<Rightarrow> Inl UnboundLocalError
           | Inr ((train_idx, test_idx) # rest) \<Rightarrow>
               if \<not> list_all (\<lambda>i. i < nat n_objects) train_idx then Inl IndexError
               else
                 (let out = train_fold env
                       \<lparr>fi_features = normalize_features features,
                        fi_triplets = load_triplets env data_root,
                        fi_train_objects = map (\<lambda>i. [0..<nat n_objects] ! i) train_idx,
                        fi_n_objects = n_objects, fi_optim_cfg = cfg,
                        fi_imagenet_train_features = imagenet_train_features,
                        fi_imagenet_val_features = imagenet_val_features,
                        fi_device = dev, fi_num_processes = num_processes\<rparr>
                  in if predictions out = [] then Inl RuntimeError
                     else Inr (concat (predictions out),
                               [''fold_01'' \<mapsto> val_performance out],
                               \<lparr>weights = transform_w out,
                                bias = (if cfg_use_bias cfg then Some (transform_b out)
                                        else None)\<rparr>))))"
proof (cases "imagenet_features features_type imagenet_features_root dev")
  case (Inl e)
  then show ?thesis by (simp add: run_def)
next
  case (Inr ds)
  obtain tr va where ds: "ds = (tr, va)" by (cases ds)
  show ?thesis
  proof (cases "kf_split env rnd_seed [0..<nat n_objects]")
    case (Inl e)
    then show ?thesis by (simp add: run_def Inr ds Let_def)
  next
    case splits: (Inr splits)
    show ?thesis
    proof (cases splits)
      case Nil
      then show ?thesis by (simp add: run_def Inr ds Let_def splits)
    next
      case (Cons s ss)
      obtain train_idx test_idx where s: "s = (train_idx, test_idx)" by (cases s)
      have fl: "for_loop (fold_body env inp [0..<nat n_objects]) (enumerate (Suc 0) splits)
                  (Map.empty, [], None)
          = (if \<not> list_all (\<lambda>i. i < length [0..<nat n_objects]) train_idx then Inl IndexError
             else let out = train_fold env
                       (inp\<lparr>fi_train_objects := map (\<lambda>i. [0..<nat n_objects] ! i) train_idx\<rparr>)
                  in if predictions out = [] then Inl RuntimeError
                     else Inr (Map.empty(fold_key 1 \<mapsto> val_performance out),
                               [] @ [concat (predictions out)], Some out))" for inp
        unfolding Cons s enumerate_simps One_nat_def[symmetric] by (rule for_loop_fold_body)
      show ?thesis
        by (simp add: run_def Inr ds splits fl Let_def fold_key_Suc_0) (simp add: Cons s Let_def)
    qed
  qed
qed


text \<open>
  Claim C8. Whenever \<^verbatim>\<open>run\<close> returns, the split has a first fold, \<open>cv_results\<close> has
  the one key \<^verbatim>\<open>fold_01\<close> with the validation performance of that fold, and the
  odd-one-out choices and the transformation are those of that fold's probe; the folds
  after the first are never processed: \<^verbatim>\<open>run\<close> returns the same on the split cut down
  to its first fold. Lemma \<open>run_first_fold_only\<close> gives the result of \<^verbatim>\<open>run\<close> on
  every input.
\<close>

theorem run_single_fold:
  assumes "run env features imagenet_features_root data_root cfg n_objects dev rnd_seed
             num_processes features_type = Inr (ooo_choices, cv_results, transformation)"
  shows "\<exists>imagenet_train_features imagenet_val_features train_idx test_idx rest out.
           imagenet_features features_type imagenet_features_root dev
             = Inr (imagenet_train_features, imagenet_val_features)
         \<and> kf_split env rnd_seed [0..<nat n_objects] = Inr ((train_idx, test_idx) # rest)
         \<and> out = train_fold env
                       \<lparr>fi_features = normalize_features features,
                        fi_triplets = load_triplets env data_root,
                        fi_train_objects = map (\<lambda>i. [0..<nat n_objects] ! i) train_idx,
                        fi_n_objects = n_objects, fi_optim_cfg = cfg,
                        fi_imagenet_train_features = imagenet_train_features,
                        fi_imagenet_val_features = imagenet_val_features,
                        fi_device = dev, fi_num_processes = num_processes\<rparr>
         \<and> dom cv_results = {''fold_01''}
         \<and> cv_results ''fold_01'' = Some (val_performance out)
         \<and> ooo_choices = concat (predictions out)
         \<and> weights transformation = transform_w out
         \<and> bias transformation = (if cfg_use_bias cfg then Some (transform_b out) else None)
         \<and> run (env\<lparr>kf_split := \<lambda>seed objects. Inr [(train_idx, test_idx)]\<rparr>) features
              imagenet_features_root data_root cfg n_objects dev rnd_seed num_processes
              features_type = Inr (ooo_choices, cv_results, transformation)"
proof -
  from assms obtain tr va where ds:
    "imagenet_features features_type imagenet_features_root dev = Inr (tr, va)"
    unfolding run_first_fold_only by (auto split: sum.splits)
  from assms ds obtain splits where sp: "kf_split env rnd_seed [0..<nat n_objects] = Inr splits"
    unfolding run_first_fold_only by (auto split: sum.splits)
  from assms ds sp obtain train_idx test_idx rest where
    c: "splits = (train_idx, test_idx) # rest"
    unfolding run_first_fold_only by (cases splits) auto
  define out where "out = train_fold env
                       \<lparr>fi_features = normalize_features features,
                        fi_triplets = load_triplets env data_root,
                        fi_train_objects = map (\<lambda>i. [0..<nat n_objects] ! i) train_idx,
                        fi_n_objects = n_objects, fi_optim_cfg = cfg,
                        fi_imagenet_train_features = tr,
                        fi_imagenet_val_features = va,
                        fi_device = dev, fi_num_processes = num_processes\<rparr>"
  have r: "list_all (\<lambda>i. i < nat n_objects) train_idx \<and> predictions out \<noteq> []
      \<and> ooo_choices = concat (predictions out)
      \<and> cv_results = [''fold_01'' \<mapsto> val_performance out]
      \<and> transformation = \<lparr>weights = transform_w out,
            bias = (if cfg_use_bias cfg then Some (transform_b out) else None)\<rparr>"
    using assms unfolding run_first_fold_only ds sp c out_def
    by (simp add: Let_def split: if_splits)
  have again: "run (env\<lparr>kf_split := \<lambda>seed objects. Inr [(train_idx, test_idx)]\<rparr>) features
              imagenet_features_root data_root cfg n_objects dev rnd_seed num_processes
              features_type = Inr (ooo_choices, cv_results, transformation)"
    using r unfolding run_first_fold_only ds out_def by (simp add: Let_def)
  have "dom cv_results = {''fold_01''}" "cv_results ''fold_01'' = Some (val_performance out)"
    "weights transformation = transform_w out"
    "bias transformation = (if cfg_use_bias cfg then Some (transform_b out) else None)"
    using r by simp_all
  with ds sp c r again out_def show ?thesis by blast
qed

theorem run_single_fold_witness:
  "run \<lparr>load_triplets = (\<lambda>data_root. [(0, 1, 2)]),
        kf_split = (\<lambda>seed objects.
           Inr [([1, 2, 3], [0]), ([0, 2, 3], [1]), ([0, 1, 3], [2]), ([0, 1, 2], [3])]),
        train_fold = (\<lambda>inp. \<lparr>val_performance = fi_train_objects inp,
           predictions = [[2, 0], [1]], transform_w = [[1]], transform_b = [0]\<rparr>)\<rparr>
       [[0, 2], [2, 0]] ''features'' ''things''
       \<lparr>cfg_optim = ''Adam'', cfg_lr = 1 / 1000, cfg_reg = ''l2'', cfg_lmbda = 1 / 1000,
        cfg_alpha = 1 / 10, cfg_tau = 1, cfg_contrastive_batch_size = 1024,
        cfg_triplet_batch_size = 256, cfg_max_epochs = 100, cfg_min_epochs = 10,
        cfg_patience = 10, cfg_use_bias = False, cfg_ckptdir = ''ckpt'', cfg_sigma = 1 / 1000\<rparr>
       4 ''cpu'' 42 4 ''pt''
     = Inr ([2, 0, 1], [''fold_01'' \<mapsto> [1, 2, 3]], \<lparr>weights = [[1]], bias = None\<rparr>)
   \<and> dom [''fold_01'' \<mapsto> [1, 2, 3 :: nat]] = {''fold_01''}"
proof -
  have ev: "run \<lparr>load_triplets = (\<lambda>data_root. [(0, 1, 2)]),
        kf_split = (\<lambda>seed objects.
           Inr [([1, 2, 3], [0]), ([0, 2, 3], [1]), ([0, 1, 3], [2]), ([0, 1, 2], [3])]),
        train_fold = (\<lambda>inp. \<lparr>val_performance = fi_train_objects inp,
           predictions = [[2, 0], [1]], transform_w = [[1]], transform_b = [0]\<rparr>)\<rparr>
       [[0, 2], [2, 0]] ''features'' ''things''
       \<lparr>cfg_optim = ''Adam'', cfg_lr = 1 / 1000, cfg_reg = ''l2'', cfg_lmbda = 1 / 1000,
        cfg_alpha = 1 / 10, cfg_tau = 1, cfg_contrastive_batch_size = 1024,
        cfg_triplet_batch_size = 256, cfg_max_epochs = 100, cfg_min_epochs = 10,
        cfg_patience = 10, cfg_use_bias = False, cfg_ckptdir = ''ckpt'', cfg_sigma = 1 / 1000\<rparr>
       4 ''cpu'' 42 4 ''pt''
     = Inr ([2, 0, 1], [''fold_01'' \<mapsto> [1, 2, 3]], \<lparr>weights = [[1]], bias = None\<rparr>)"
    by (simp add: run_first_fold_only imagenet_features_def Let_def numeral_2_eq_2)
  show ?thesis using run_single_fold[OF ev] ev by simp
qed

subsection \<open>Normalisation in the driver\<close>

text \<open>
  Claim C9. \<^verbatim>\<open>run\<close> normalises the feature matrix once, before the fold loop, with the
  mean and the standard deviation of all its entries. For a matrix \<open>F\<close> whose entries are
  not all equal the standard deviation is not 0, the normalised matrix
  \<open>(F - mean) / std\<close> has mean 0 and standard deviation 1 over all its entries (in exact
  arithmetic), and this matrix, the same for every split, is what \<^verbatim>\<open>run\<close> hands to the
  probe of the fold it processes: \<^verbatim>\<open>run\<close> is the work of the first fold on the normalised
  features.
\<close>

theorem normalize_features_mean_std:
  assumes "x \<in> set (concat F)" "y \<in> set (concat F)" "x \<noteq> y"
  shows "std_all F \<noteq> 0
       \<and> normalize_features F = Some (map (map (\<lambda>x. (x - mean_all F) / std_all F)) F)
       \<and> mean_all (map (map (\<lambda>x. (x - mean_all F) / std_all F)) F) = 0
       \<and> std_all (map (map (\<lambda>x. (x - mean_all F) / std_all F)) F) = 1
       \<and> run env F imagenet_features_root data_root cfg n_objects dev rnd_seed num_processes
           features_type =
         (case imagenet_features features_type imagenet_features_root dev of
            Inl e \<Rightarrow> Inl e
          | Inr (imagenet_train_features, imagenet_val_features) \<Rightarrow>
              (case kf_split env rnd_seed [0..<nat n_objects] of
                 Inl e \<Rightarrow> Inl e
               | Inr [] \<Rightarrow> Inl UnboundLocalError
               | Inr ((train_idx, test_idx) # rest) \<Rightarrow>
                   if \<not> list_all (\<lambda>i. i < nat n_objects) train_idx then Inl IndexError
                   else
                     (let out = train_fold env
                       \<lparr>fi_features = Some (map (map (\<lambda>x. (x - mean_all F) / std_all F)) F),
                        fi_triplets = load_triplets env data_root,
                        fi_train_objects = map (\<lambda>i. [0..<nat n_objects] ! i) train_idx,
                        fi_n_objects = n_objects, fi_optim_cfg = cfg,
                        fi_imagenet_train_features = imagenet_train_features,
                        fi_imagenet_val_features = imagenet_val_features,
                        fi_device = dev, fi_num_processes = num_processes\<rparr>
                      in if predictions out = [] then Inl RuntimeError
                         else Inr (concat (predictions out),
                                   [''fold_01'' \<mapsto> val_performance out],
                                   \<lparr>weights = transform_w out,
                                    bias = (if cfg_use_bias cfg then Some (transform_b out)
                                            else None)\<rparr>))))"
proof -
  note r = normalized_mean_std[OF assms]
  have s: "std_all F \<noteq> 0" using r(1) by simp
  then have nf:
    "normalize_features F = Some (map (map (\<lambda>x. (x - mean_all F) / std_all F)) F)"
    by (simp add: normalize_features_def)
  have "run env F imagenet_features_root data_root cfg n_objects dev rnd_seed num_processes
           features_type =
         (case imagenet_features features_type imagenet_features_root dev of
            Inl e \<Rightarrow> Inl e
          | Inr (imagenet_train_features, imagenet_val_features) \<Rightarrow>
              (case kf_split env rnd_seed [0..<nat n_objects] of
                 Inl e \<Rightarrow> Inl e
               | Inr [] \<Rightarrow> Inl UnboundLocalError
               | Inr ((train_idx, test_idx) # rest) \<Rightarrow>
                   if \<not> list_all (\<lambda>i. i < nat n_objects) train_idx then Inl IndexError
                   else
                     (let out = train_fold env
                       \<lparr>fi_features = Some (map (map (\<lambda>x. (x - mean_all F) / std_all F)) F),
                        fi_triplets = load_triplets env data_root,
                        fi_train_objects = map (\<lambda>i. [0..<nat n_objects] ! i) train_idx,
                        fi_n_objects = n_objects, fi_optim_cfg = cfg,
                        fi_imagenet_train_features = imagenet_train_features,
                        fi_imagenet_val_features = imagenet_val_features,
                        fi_device = dev, fi_num_processes = num_processes\<rparr>
                      in if predictions out = [] then Inl RuntimeError
                         else Inr (concat (predictions out),
                                   [''fold_01'' \<mapsto> val_performance out],
                                   \<lparr>weights = transform_w out,
                                    bias = (if cfg_use_bias cfg then Some (transform_b out)
                                            else None)\<rparr>))))"
    by (simp only: run_first_fold_only nf)
  with s nf r(2,3) show ?thesis by blast
qed

theorem normalize_features_mean_std_witness:
  "(0 :: real) \<in> set (concat [[0, 2], [2, 0]]) \<and> (2 :: real) \<in> set (concat [[0, 2], [2, 0]])
   \<and> (0 :: real) \<noteq> 2
   \<and> mean_all [[0, 2], [2, 0]] = 1 \<and> std_all [[0, 2], [2, 0]] = 1
   \<and> normalize_features [[0, 2], [2, 0]] = Some [[- 1, 1], [1, - 1]]
   \<and> mean_all [[- 1, 1], [1, - 1]] = 0 \<and> std_all [[- 1, 1], [1, - 1]] = 1
   \<and> run \<lparr>load_triplets = (\<lambda>data_root. [(0, 1, 2)]),
        kf_split = (\<lambda>seed objects.
           Inr [([1, 2, 3], [0]), ([0, 2, 3], [1]), ([0, 1, 3], [2]), ([0, 1, 2], [3])]),
        train_fold = (\<lambda>inp. \<lparr>val_performance = fi_features inp,
           predictions = [[2, 0], [1]], transform_w = [[1]], transform_b = [0]\<rparr>)\<rparr>
       [[0, 2], [2, 0]] ''features'' ''things''
       \<lparr>cfg_optim = ''Adam'', cfg_lr = 1 / 1000, cfg_reg = ''l2'', cfg_lmbda = 1 / 1000,
        cfg_alpha = 1 / 10, cfg_tau = 1, cfg_contrastive_batch_size = 1024,
        cfg_triplet_batch_size = 256, cfg_max_epochs = 100, cfg_min_epochs = 10,
        cfg_patience = 10, cfg_use_bias = False, cfg_ckptdir = ''ckpt'', cfg_sigma = 1 / 1000\<rparr>
       4 ''cpu'' 42 4 ''pt''
     = Inr ([2, 0, 1], [''fold_01'' \<mapsto> Some [[- 1, 1], [1, - 1]]],
            \<lparr>weights = [[1]], bias = None\<rparr>)"
proof -
  have h: "(0 :: real) \<in> set (concat [[0, 2], [2, 0]])" "(2 :: real) \<in> set (concat [[0, 2], [2, 0]])"
    "(0 :: real) \<noteq> 2" by simp_all
  have m: "mean_all [[0, 2], [2, 0]] = 1" by (simp add: mean_all_def)
  have s: "std_all [[0, 2], [2, 0]] = 1" by (simp add: std_all_def mean_all_def)
  have n: "map (map (\<lambda>x. (x - mean_all [[0, 2], [2, 0]]) / std_all [[0, 2], [2, 0]])) [[0, 2], [2, 0]]
      = [[- 1, 1], [1, - 1]]" by (simp add: m s)
  note t = normalize_features_mean_std[OF h, where env = "\<lparr>load_triplets = (\<lambda>data_root. [(0, 1, 2)]),
        kf_split = (\<lambda>seed objects.
           Inr [([1, 2, 3], [0]), ([0, 2, 3], [1]), ([0, 1, 3], [2]), ([0, 1, 2], [3])]),
        train_fold = (\<lambda>inp. \<lparr>val_performance = fi_features inp,
           predictions = [[2, 0], [1]], transform_w = [[1]], transform_b = [0]\<rparr>)\<rparr>"
        and imagenet_features_root = "''features''" and data_root = "''things''"
        and dev = "''cpu''" and features_type = "''pt''" and n_objects = 4 and rnd_seed = 42
        and num_processes = 4
        and cfg = "\<lparr>cfg_optim = ''Adam'', cfg_lr = 1 / 1000, cfg_reg = ''l2'', cfg_lmbda = 1 / 1000,
        cfg_alpha = 1 / 10, cfg_tau = 1, cfg_contrastive_batch_size = 1024,
        cfg_triplet_batch_size = 256, cfg_max_epochs = 100, cfg_min_epochs = 10,
        cfg_patience = 10, cfg_use_bias = False, cfg_ckptdir = ''ckpt'', cfg_sigma = 1 / 1000\<rparr>"]
  note t' = t[unfolded n]
  note nf = t'[THEN conjunct2, THEN conjunct1]
  note m0 = t'[THEN conjunct2, THEN conjunct2, THEN conjunct1]
  note s1 = t'[THEN conjunct2, THEN conjunct2, THEN conjunct2, THEN conjunct1]
  note runeq = t'[THEN conjunct2, THEN conjunct2, THEN conjunct2, THEN conjunct2]
  have ev: "run \<lparr>load_triplets = (\<lambda>data_root. [(0, 1, 2)]),
        kf_split = (\<lambda>seed objects.
           Inr [([1, 2, 3], [0]), ([0, 2, 3], [1]), ([0, 1, 3], [2]), ([0, 1, 2], [3])]),
        train_fold = (\<lambda>inp. \<lparr>val_performance = fi_features inp,
           predictions = [[2, 0], [1]], transform_w = [[1]], transform_b = [0]\<rparr>)\<rparr>
       [[0, 2], [2, 0]] ''features'' ''things''
       \<lparr>cfg_optim = ''Adam'', cfg_lr = 1 / 1000, cfg_reg = ''l2'', cfg_lmbda = 1 / 1000,
        cfg_alpha = 1 / 10, cfg_tau = 1, cfg_contrastive_batch_size = 1024,
        cfg_triplet_batch_size = 256, cfg_max_epochs = 100, cfg_min_epochs = 10,
        cfg_patience = 10, cfg_use_bias = False, cfg_ckptdir = ''ckpt'', cfg_sigma = 1 / 1000\<rparr>
       4 ''cpu'' 42 4 ''pt''
     = Inr ([2, 0, 1], [''fold_01'' \<mapsto> Some [[- 1, 1], [1, - 1]]],
            \<lparr>weights = [[1]], bias = None\<rparr>)"
    unfolding runeq by (simp add: imagenet_features_def Let_def)
  from h m s nf m0 s1 ev show ?thesis by (simp only: simp_thms)
qed

end
